theory Spec2Isabelle
  imports Complex_Main
begin

section \<open>Domain types (src/lib/types.ts)\<close>

text \<open>
  The string-literal unions of \<^verbatim>\<open>types.ts\<close> are datatypes with one constructor per
  literal. Constructors keep the literal's spelling, except where the same word is also a
  field of a result record: the two transaction statuses and the two decline types are
  capitalised, and the four grouping dimensions carry the prefix \<open>by_\<close>.
\<close>

datatype Currency = MXN | COP | BRL

datatype Country = Mexico | Colombia | Brazil

datatype PaymentMethod = credit_card | debit_card | pse | pix | boleto

datatype Processor = PagosRapid | AcquireLocal | BrasilPay

datatype TransactionStatus = Approved | Declined

datatype DeclineCode =
    insufficient_funds
  | card_expired
  | suspected_fraud
  | do_not_honor
  | issuer_unavailable
  | invalid_card_number
  | transaction_not_permitted
  | processing_error
  | timeout
  | lost_stolen_card

datatype DeclineType = Soft | Hard

text \<open>
  The string literal behind each constructor, which is the value the program holds at run
  time and the object key under which \<^verbatim>\<open>groupByDimension\<close> files a transaction.
\<close>

fun country_name :: "Country \<Rightarrow> string" where
  "country_name Mexico = ''Mexico''"
| "country_name Colombia = ''Colombia''"
| "country_name Brazil = ''Brazil''"

fun payment_method_name :: "PaymentMethod \<Rightarrow> string" where
  "payment_method_name credit_card = ''credit_card''"
| "payment_method_name debit_card = ''debit_card''"
| "payment_method_name pse = ''pse''"
| "payment_method_name pix = ''pix''"
| "payment_method_name boleto = ''boleto''"

fun processor_name :: "Processor \<Rightarrow> string" where
  "processor_name PagosRapid = ''PagosRapid''"
| "processor_name AcquireLocal = ''AcquireLocal''"
| "processor_name BrasilPay = ''BrasilPay''"

fun decline_code_name :: "DeclineCode \<Rightarrow> string" where
  "decline_code_name insufficient_funds = ''insufficient_funds''"
| "decline_code_name card_expired = ''card_expired''"
| "decline_code_name suspected_fraud = ''suspected_fraud''"
| "decline_code_name do_not_honor = ''do_not_honor''"
| "decline_code_name issuer_unavailable = ''issuer_unavailable''"
| "decline_code_name invalid_card_number = ''invalid_card_number''"
| "decline_code_name transaction_not_permitted = ''transaction_not_permitted''"
| "decline_code_name processing_error = ''processing_error''"
| "decline_code_name timeout = ''timeout''"
| "decline_code_name lost_stolen_card = ''lost_stolen_card''"

text \<open>
  A \<^verbatim>\<open>Transaction\<close>. The field \<^verbatim>\<open>id\<close> is called \<open>tx_id\<close> (\<open>id\<close> is the identity
  function of HOL). \<^verbatim>\<open>amount\<close> is a JavaScript number read from JSON, hence finite; it is
  an exact rational here, so rounding of binary floating point is not part of the model.
  \<^verbatim>\<open>timestamp\<close> is an ISO 8601 string in the source and is only ever used through
  \<^verbatim>\<open>new Date(timestamp)\<close>; the model stores the time value of that date (milliseconds
  since the epoch). \<^verbatim>\<open>decline_code\<close> is \<^verbatim>\<open>DeclineCode | null\<close>.
\<close>

record Transaction =
  tx_id :: string
  amount :: rat
  currency :: Currency
  country :: Country
  payment_method :: PaymentMethod
  processor :: Processor
  status :: TransactionStatus
  decline_code :: "DeclineCode option"
  timestamp :: int

text \<open>
  \<^verbatim>\<open>DateRange\<close>: both bounds are \<^verbatim>\<open>Date | null\<close>; a date is its time value. The fields
  \<^verbatim>\<open>start\<close> and \<^verbatim>\<open>end\<close> are called \<open>start_date\<close> and \<open>end_date\<close> (\<open>end\<close> is a
  keyword).
\<close>

record DateRange =
  start_date :: "int option"
  end_date :: "int option"

record TransactionFilters =
  dateRange :: DateRange
  countries :: "Country list"
  paymentMethods :: "PaymentMethod list"
  processors :: "Processor list"
  declineCodes :: "DeclineCode list"
  declineTypes :: "DeclineType list"

text \<open>
  \<^verbatim>\<open>Partial<TransactionFilters>\<close>, the parameter type of \<^verbatim>\<open>filterTransactions\<close>: every
  field may be absent (\<open>None\<close>).
\<close>

record PartialFilters =
  dateRange_opt :: "DateRange option"
  countries_opt :: "Country list option"
  paymentMethods_opt :: "PaymentMethod list option"
  processors_opt :: "Processor list option"
  declineCodes_opt :: "DeclineCode list option"
  declineTypes_opt :: "DeclineType list option"

text \<open>A complete \<^verbatim>\<open>TransactionFilters\<close> value passed where a partial one is expected.\<close>

definition as_partial :: "TransactionFilters \<Rightarrow> PartialFilters" where
  "as_partial f =
     \<lparr> dateRange_opt = Some (dateRange f),
       countries_opt = Some (countries f),
       paymentMethods_opt = Some (paymentMethods f),
       processors_opt = Some (processors f),
       declineCodes_opt = Some (declineCodes f),
       declineTypes_opt = Some (declineTypes f) \<rparr>"

text \<open>
  A JavaScript number that comes out of a division. The finite values are exact rationals;
  \<open>NotFinite\<close> stands for \<^verbatim>\<open>NaN\<close> and the two infinities, which is what a division by
  zero yields, and which every later addition or multiplication by a positive constant
  keeps non-finite.
\<close>

datatype number = Num rat | NotFinite

definition num_div :: "rat \<Rightarrow> rat \<Rightarrow> number" where
  "num_div a b = (if b = 0 then NotFinite else Num (a / b))"

fun num_times :: "number \<Rightarrow> rat \<Rightarrow> number" where
  "num_times (Num a) k = Num (a * k)"
| "num_times NotFinite k = NotFinite"

fun num_plus :: "number \<Rightarrow> number \<Rightarrow> number" where
  "num_plus (Num a) (Num b) = Num (a + b)"
| "num_plus _ _ = NotFinite"

section \<open>Decline classification (src/lib/analytics.ts, classifyDecline)\<close>

definition softDeclines :: "DeclineCode list" where
  "softDeclines = [insufficient_funds, issuer_unavailable, processing_error, timeout]"

definition hardDeclines :: "DeclineCode list" where
  "hardDeclines =
     [card_expired, suspected_fraud, do_not_honor, invalid_card_number,
      transaction_not_permitted, lost_stolen_card]"

definition classifyDecline :: "DeclineCode \<Rightarrow> DeclineType" where
  "classifyDecline code =
     (if code \<in> set softDeclines then Soft
      else if code \<in> set hardDeclines then Hard
      else Hard)"

text \<open>
  The same function on an arbitrary string. Types are erased at run time and the
  transactions are cast from JSON unchecked, so \<^verbatim>\<open>classifyDecline\<close> can meet a string
  that is none of the ten literals; \<^verbatim>\<open>includes\<close> compares strings.
\<close>

definition classifyDecline_raw :: "string \<Rightarrow> DeclineType" where
  "classifyDecline_raw code =
     (if code \<in> set (map decline_code_name softDeclines) then Soft
      else if code \<in> set (map decline_code_name hardDeclines) then Hard
      else Hard)"

section \<open>Transaction filtering (src/lib/analytics.ts, filterTransactions)\<close>

text \<open>
  The callback of \<^verbatim>\<open>transactions.filter\<close>: a chain of early \<^verbatim>\<open>return false\<close>, then
  \<^verbatim>\<open>return true\<close>. A present \<^verbatim>\<open>dateRange\<close> object and a \<^verbatim>\<open>Date\<close> are truthy, \<^verbatim>\<open>null\<close>
  and an absent field are falsy; \<^verbatim>\<open>transaction.decline_code\<close> is truthy exactly when it
  is not \<^verbatim>\<open>null\<close> (no literal of \<^verbatim>\<open>DeclineCode\<close> is the empty string).
\<close>

definition date_rejects :: "DateRange option \<Rightarrow> Transaction \<Rightarrow> bool" where
  "date_rejects dr t =
     (case dr of
        None \<Rightarrow> False
      | Some r \<Rightarrow>
          (case start_date r of Some s \<Rightarrow> timestamp t < s | None \<Rightarrow> False) \<or>
          (case end_date r of Some e \<Rightarrow> timestamp t > e | None \<Rightarrow> False))"

definition keeps :: "PartialFilters \<Rightarrow> Transaction \<Rightarrow> bool" where
  "keeps f t =
     (if date_rejects (dateRange_opt f) t then False
      else if (case countries_opt f of
                 Some cs \<Rightarrow> length cs > 0 \<and> country t \<notin> set cs | None \<Rightarrow> False)
        then False
      else if (case paymentMethods_opt f of
                 Some ms \<Rightarrow> length ms > 0 \<and> payment_method t \<notin> set ms | None \<Rightarrow> False)
        then False
      else if (case processors_opt f of
                 Some ps \<Rightarrow> length ps > 0 \<and> processor t \<notin> set ps | None \<Rightarrow> False)
        then False
      else if (case declineCodes_opt f of
                 Some ds \<Rightarrow> length ds > 0 \<and>
                   (case (status t, decline_code t) of
                      (Declined, Some c) \<Rightarrow> c \<notin> set ds
                    | _ \<Rightarrow> True)
               | None \<Rightarrow> False)
        then False
      else if (case declineTypes_opt f of
                 Some ts \<Rightarrow> length ts > 0 \<and>
                   (case (status t, decline_code t) of
                      (Declined, Some c) \<Rightarrow> classifyDecline c \<notin> set ts
                    | _ \<Rightarrow> True)
               | None \<Rightarrow> False)
        then False
      else True)"

definition filterTransactions :: "Transaction list \<Rightarrow> PartialFilters \<Rightarrow> Transaction list" where
  "filterTransactions transactions f = filter (keeps f) transactions"

text \<open>
  The six checks as section 4.2 of the specification words them, each one a pass when its
  criterion is absent or empty. They are stated independently of \<open>keeps\<close>.
\<close>

definition check_date :: "PartialFilters \<Rightarrow> Transaction \<Rightarrow> bool" where
  "check_date f t =
     (case dateRange_opt f of
        None \<Rightarrow> True
      | Some r \<Rightarrow>
          (case start_date r of None \<Rightarrow> True | Some s \<Rightarrow> s \<le> timestamp t) \<and>
          (case end_date r of None \<Rightarrow> True | Some e \<Rightarrow> timestamp t \<le> e))"

definition check_country :: "PartialFilters \<Rightarrow> Transaction \<Rightarrow> bool" where
  "check_country f t =
     (case countries_opt f of None \<Rightarrow> True | Some cs \<Rightarrow> cs = [] \<or> country t \<in> set cs)"

definition check_paymentMethod :: "PartialFilters \<Rightarrow> Transaction \<Rightarrow> bool" where
  "check_paymentMethod f t =
     (case paymentMethods_opt f of
        None \<Rightarrow> True | Some ms \<Rightarrow> ms = [] \<or> payment_method t \<in> set ms)"

definition check_processor :: "PartialFilters \<Rightarrow> Transaction \<Rightarrow> bool" where
  "check_processor f t =
     (case processors_opt f of None \<Rightarrow> True | Some ps \<Rightarrow> ps = [] \<or> processor t \<in> set ps)"

definition check_declineCode :: "PartialFilters \<Rightarrow> Transaction \<Rightarrow> bool" where
  "check_declineCode f t =
     (case declineCodes_opt f of
        None \<Rightarrow> True
      | Some ds \<Rightarrow>
          ds = [] \<or>
          (status t = Declined \<and>
           (case decline_code t of None \<Rightarrow> False | Some c \<Rightarrow> c \<in> set ds)))"

definition check_declineType :: "PartialFilters \<Rightarrow> Transaction \<Rightarrow> bool" where
  "check_declineType f t =
     (case declineTypes_opt f of
        None \<Rightarrow> True
      | Some ts \<Rightarrow>
          ts = [] \<or>
          (status t = Declined \<and>
           (case decline_code t of None \<Rightarrow> False | Some c \<Rightarrow> classifyDecline c \<in> set ts)))"

definition passes_all_checks :: "PartialFilters \<Rightarrow> Transaction \<Rightarrow> bool" where
  "passes_all_checks f t =
     (check_date f t \<and> check_country f t \<and> check_paymentMethod f t \<and>
      check_processor f t \<and> check_declineCode f t \<and> check_declineType f t)"

section \<open>Authorization metrics (src/lib/analytics.ts, getAuthorizationRate)\<close>

record AuthorizationMetrics =
  total :: nat
  approved :: nat
  declined :: int
  authorizationRate :: number
  totalRevenue :: rat
  lostRevenue :: rat

text \<open>
  \<^verbatim>\<open>.reduce((sum, t) => sum + t.amount, 0)\<close>: a left fold from 0, in exact arithmetic.
  The binary64 addition of the program is modelled further down, for the two revenue sums.
\<close>

definition sum_amounts :: "Transaction list \<Rightarrow> rat" where
  "sum_amounts txns = foldl (\<lambda>sum t. sum + amount t) 0 txns"

text \<open>
  \<^verbatim>\<open>total > 0 ? (approved / total) * 100 : 0\<close>, the expression shared by
  \<^verbatim>\<open>getAuthorizationRate\<close>, \<^verbatim>\<open>groupByDimension\<close> and \<^verbatim>\<open>groupByTime\<close>.
\<close>

definition rate_of :: "nat \<Rightarrow> nat \<Rightarrow> number" where
  "rate_of n_approved n_total =
     (if n_total > 0 then num_times (num_div (of_nat n_approved) (of_nat n_total)) 100
      else Num 0)"

definition getAuthorizationRate :: "Transaction list \<Rightarrow> AuthorizationMetrics" where
  "getAuthorizationRate transactions =
     (let n_total = length transactions;
          n_approved = length (filter (\<lambda>t. status t = Approved) transactions);
          n_declined = int n_total - int n_approved;
          revenue = sum_amounts (filter (\<lambda>t. status t = Approved) transactions);
          lost = sum_amounts (filter (\<lambda>t. status t = Declined) transactions)
      in \<lparr> total = n_total,
           approved = n_approved,
           declined = n_declined,
           authorizationRate = rate_of n_approved n_total,
           totalRevenue = revenue,
           lostRevenue = lost \<rparr>)"

subsection \<open>The two revenue sums in binary64\<close>

text \<open>
  \<open>sum_amounts\<close> above adds exactly. The program adds JavaScript numbers: every \<^verbatim>\<open>+\<close>
  of the two \<^verbatim>\<open>reduce\<close> calls is rounded to the nearest binary64 value, ties to the even
  significand. The rest of this section is that addition on rationals, and the fields
  \<^verbatim>\<open>totalRevenue\<close> and \<^verbatim>\<open>lostRevenue\<close> computed with it.

  \<open>rne\<close> rounds to the nearest integer, ties to even. \<open>norm_down\<close> and \<open>norm_up\<close> scale a
  positive magnitude by powers of two until it lies in the range of a 53-bit significand,
  from \<open>2 ^ 52\<close> up to but not including \<open>2 ^ 53\<close>, or until the exponent reaches that of the
  subnormal numbers, \<open>- 1074\<close>. \<open>round64\<close> rounds the scaled magnitude and scales it back; a
  magnitude that rounds to \<open>2 ^ 1024\<close> or more overflows to an infinity (\<open>NotFinite\<close>).
\<close>

definition rne :: "rat \<Rightarrow> int" where
  "rne y =
     (let n = \<lfloor>y\<rfloor>; f = y - of_int n
      in if f < 1 / 2 then n else if 1 / 2 < f then n + 1 else if even n then n else n + 1)"

function norm_down :: "rat \<Rightarrow> int \<Rightarrow> rat \<times> int" where
  "norm_down y e = (if 2 ^ 53 \<le> y then norm_down (y / 2) (e + 1) else (y, e))"
  by pat_completeness auto
termination
proof (relation "measure (\<lambda>(y, e). nat \<lfloor>y\<rfloor>)")
  show "wf (measure (\<lambda>(y, e). nat \<lfloor>y\<rfloor>))" by simp
next
  fix y :: rat and e :: int
  assume a: "2 ^ 53 \<le> y"
  have "(2::rat) \<le> 2 ^ 53" by simp
  then have y: "2 \<le> y" using a by (rule order_trans)
  have "rat_of_int \<lfloor>y / 2\<rfloor> \<le> y / 2" by (rule of_int_floor_le)
  with y have "rat_of_int (\<lfloor>y / 2\<rfloor> + 1) \<le> y" by simp
  then have "\<lfloor>y / 2\<rfloor> + 1 \<le> \<lfloor>y\<rfloor>" by (simp only: le_floor_iff)
  moreover from y have "0 < \<lfloor>y\<rfloor>" by (simp add: less_floor_iff)
  ultimately have "\<lfloor>y / 2\<rfloor> < \<lfloor>y\<rfloor>" "0 < \<lfloor>y\<rfloor>" by simp_all
  then show "((y / 2, e + 1), (y, e)) \<in> measure (\<lambda>(y, e). nat \<lfloor>y\<rfloor>)"
    by simp
qed

function norm_up :: "rat \<Rightarrow> int \<Rightarrow> rat \<times> int" where
  "norm_up y e = (if y < 2 ^ 52 \<and> - 1074 < e then norm_up (2 * y) (e - 1) else (y, e))"
  by pat_completeness auto
termination
  by (relation "measure (\<lambda>(y, e). nat (e + 1074))") auto

text \<open>The two recursive equations are unfolded only where a proof asks for them.\<close>

declare norm_down.simps [simp del]

declare norm_up.simps [simp del]

definition pow2 :: "int \<Rightarrow> rat" where
  "pow2 e = (if 0 \<le> e then 2 ^ nat e else 1 / 2 ^ nat (- e))"

definition round64 :: "rat \<Rightarrow> number" where
  "round64 x =
     (if x = 0 then Num 0
      else
        let d = norm_down \<bar>x\<bar> 0;
            u = norm_up (fst d) (snd d);
            r = of_int (rne (fst u)) * pow2 (snd u)
        in if 2 ^ 1024 \<le> r then NotFinite else Num (sgn x * r))"

fun add64 :: "number \<Rightarrow> number \<Rightarrow> number" where
  "add64 (Num a) (Num b) = round64 (a + b)"
| "add64 _ _ = NotFinite"

text \<open>
  \<^verbatim>\<open>.reduce((sum, t) => sum + t.amount, 0)\<close> with binary64 addition, and the two sums of
  \<^verbatim>\<open>getAuthorizationRate\<close> that use it.
\<close>

definition sum_amounts64 :: "Transaction list \<Rightarrow> number" where
  "sum_amounts64 txns = foldl (\<lambda>sum t. add64 sum (Num (amount t))) (Num 0) txns"

definition totalRevenue64 :: "Transaction list \<Rightarrow> number" where
  "totalRevenue64 transactions =
     sum_amounts64 (filter (\<lambda>t. status t = Approved) transactions)"

definition lostRevenue64 :: "Transaction list \<Rightarrow> number" where
  "lostRevenue64 transactions =
     sum_amounts64 (filter (\<lambda>t. status t = Declined) transactions)"

text \<open>
  A rational is a binary64 value when rounding leaves it unchanged; every amount the
  program reads is one. The finite binary64 values are all multiples of \<open>2 ^ - 1074\<close>
  (\<open>on_grid\<close>). \<open>rounding_bound n\<close> is the relative error that \<open>n\<close> rounded additions can
  build up; \<open>sum64\<close> is the rounded sum of a list of numbers.
\<close>

definition is_binary64 :: "rat \<Rightarrow> bool" where
  "is_binary64 x = (round64 x = Num x)"

definition on_grid :: "rat \<Rightarrow> bool" where
  "on_grid x = (of_int \<lfloor>x * pow2 1074\<rfloor> = x * pow2 1074)"

definition sum64 :: "rat list \<Rightarrow> number" where
  "sum64 xs = foldl (\<lambda>s x. add64 s (Num x)) (Num 0) xs"

definition rounding_bound :: "nat \<Rightarrow> rat" where
  "rounding_bound n = (1 + 1 / 2 ^ 53) ^ n - 1"

section \<open>Grouping into an object and sorting (JavaScript library semantics)\<close>

text \<open>
  \<^verbatim>\<open>if (!acc[k]) acc[k] = []; acc[k].push(v)\<close> on an object used as a dictionary. The
  object is an association list in insertion order of its keys, which is the order in
  which \<^verbatim>\<open>Object.entries\<close> lists string keys that are not array indices; no key of this
  program (a decline code, a country, a payment method, a processor, a formatted date) is
  one.
\<close>

fun push_group :: "'k \<Rightarrow> 'v \<Rightarrow> ('k \<times> 'v list) list \<Rightarrow> ('k \<times> 'v list) list" where
  "push_group k v [] = [(k, [v])]"
| "push_group k v ((k', vs) # rest) =
     (if k' = k then (k', vs @ [v]) # rest else (k', vs) # push_group k v rest)"

text \<open>
  \<^verbatim>\<open>Array.prototype.sort(compare)\<close>: a stable sort. Each element is inserted, from left to
  right, in front of the first element that must come after it (\<open>compare x y < 0\<close>).
\<close>

fun insert_by :: "('a \<Rightarrow> 'a \<Rightarrow> int) \<Rightarrow> 'a \<Rightarrow> 'a list \<Rightarrow> 'a list" where
  "insert_by compare x [] = [x]"
| "insert_by compare x (y # ys) =
     (if compare x y < 0 then x # y # ys else y # insert_by compare x ys)"

definition sort_by :: "('a \<Rightarrow> 'a \<Rightarrow> int) \<Rightarrow> 'a list \<Rightarrow> 'a list" where
  "sort_by compare xs = foldl (\<lambda>acc x. insert_by compare x acc) [] xs"

text \<open>
  The shape shared by the three group-by reducers below, and the order that the two
  descending sorts are to establish; both are used to state and prove properties only.
\<close>

definition grouping :: "('v \<Rightarrow> 'k option) \<Rightarrow> 'v list \<Rightarrow> ('k \<times> 'v list) list" where
  "grouping key xs =
     foldl (\<lambda>acc t. case key t of None \<Rightarrow> acc | Some k \<Rightarrow> push_group k t acc) [] xs"

definition descending_by :: "('a \<Rightarrow> nat) \<Rightarrow> 'a list \<Rightarrow> bool" where
  "descending_by k xs = sorted_wrt (\<lambda>a b. k a \<ge> k b) xs"

section \<open>Decline impact (src/lib/analytics.ts, getDeclineImpact)\<close>

text \<open>
  \<^verbatim>\<open>DeclineCodeAnalysis\<close>. The field \<^verbatim>\<open>type\<close> is \<open>decline_type\<close>, \<^verbatim>\<open>lostRevenue\<close> is
  \<open>code_lostRevenue\<close>; \<^verbatim>\<open>cumulativePercentage?\<close> is optional, \<open>None\<close> when absent.
\<close>

record DeclineCodeAnalysis =
  code :: DeclineCode
  decline_type :: DeclineType
  count :: nat
  percentage :: number
  code_lostRevenue :: rat
  averageAmount :: number
  cumulativePercentage :: "number option"

text \<open>
  The group-by reducer. \<^verbatim>\<open>t.decline_code!\<close> asserts a code that the filter before it
  has already established, so the \<open>None\<close> case is never taken.
\<close>

definition group_by_code :: "Transaction list \<Rightarrow> (DeclineCode \<times> Transaction list) list" where
  "group_by_code txns =
     foldl (\<lambda>acc t. case decline_code t of Some c \<Rightarrow> push_group c t acc | None \<Rightarrow> acc) [] txns"

text \<open>The callback of the first \<^verbatim>\<open>map\<close>; \<open>n_declined\<close> is \<^verbatim>\<open>declined.length\<close>.\<close>

definition analyse :: "nat \<Rightarrow> DeclineCode \<times> Transaction list \<Rightarrow> DeclineCodeAnalysis" where
  "analyse n_declined entry =
     (let c = fst entry; txns = snd entry;
          n = length txns;
          lost = sum_amounts txns
      in \<lparr> code = c,
           decline_type = classifyDecline c,
           count = n,
           percentage = num_times (num_div (of_nat n) (of_nat n_declined)) 100,
           code_lostRevenue = lost,
           averageAmount = num_div lost (of_nat n),
           cumulativePercentage = None \<rparr>)"

text \<open>
  The second \<^verbatim>\<open>map\<close>, whose callback updates the variable \<^verbatim>\<open>cumulative\<close>; the variable
  is threaded through the recursion.
\<close>

fun accumulate :: "number \<Rightarrow> DeclineCodeAnalysis list \<Rightarrow> DeclineCodeAnalysis list" where
  "accumulate cumulative [] = []"
| "accumulate cumulative (item # rest) =
     (let cumulative' = num_plus cumulative (percentage item)
      in item\<lparr>cumulativePercentage := Some cumulative'\<rparr> # accumulate cumulative' rest)"

definition getDeclineImpact :: "Transaction list \<Rightarrow> DeclineCodeAnalysis list" where
  "getDeclineImpact transactions =
     (let declined_txns =
            filter (\<lambda>t. status t = Declined \<and> decline_code t \<noteq> None) transactions
      in if length declined_txns = 0 then []
         else
           let grouped = group_by_code declined_txns;
               analysis =
                 sort_by (\<lambda>a b. int (count b) - int (count a))
                   (map (analyse (length declined_txns)) grouped)
           in accumulate (Num 0) analysis)"

text \<open>
  The exact percentage of a row among \<open>n\<close> declines, and the condition under which
  \<open>getDeclineImpact\<close> has rows to report.
\<close>

definition share :: "nat \<Rightarrow> DeclineCodeAnalysis \<Rightarrow> rat" where
  "share n item = of_nat (count item) / of_nat n * 100"

definition has_coded_decline :: "Transaction list \<Rightarrow> bool" where
  "has_coded_decline T = (\<exists>t \<in> set T. status t = Declined \<and> decline_code t \<noteq> None)"

section \<open>Grouping by dimension (src/lib/analytics.ts, groupByDimension)\<close>

datatype GroupByDimension = by_country | by_payment_method | by_processor | by_decline_code

text \<open>\<^verbatim>\<open>transaction[keyMap[dimension]] as string\<close>; \<open>None\<close> is \<^verbatim>\<open>null\<close>.\<close>

fun field_value :: "GroupByDimension \<Rightarrow> Transaction \<Rightarrow> string option" where
  "field_value by_country t = Some (country_name (country t))"
| "field_value by_payment_method t = Some (payment_method_name (payment_method t))"
| "field_value by_processor t = Some (processor_name (processor t))"
| "field_value by_decline_code t = map_option decline_code_name (decline_code t)"

text \<open>
  \<^verbatim>\<open>DimensionAggregate\<close>; the counters and the rate carry the prefix \<open>dim_\<close>.
\<close>

record DimensionAggregate =
  dimension :: string
  dim_approved :: nat
  dim_declined :: nat
  dim_total :: nat
  dim_authorizationRate :: number
  totalAmount :: rat

text \<open>The reducer: \<^verbatim>\<open>if (!value) return acc\<close> skips \<^verbatim>\<open>null\<close> and the empty string.\<close>

definition group_by_field ::
  "GroupByDimension \<Rightarrow> Transaction list \<Rightarrow> (string \<times> Transaction list) list" where
  "group_by_field d txns =
     foldl (\<lambda>acc t.
              case field_value d t of
                None \<Rightarrow> acc
              | Some v \<Rightarrow> if v = [] then acc else push_group v t acc)
       [] txns"

definition aggregate :: "string \<times> Transaction list \<Rightarrow> DimensionAggregate" where
  "aggregate entry =
     (let txns = snd entry;
          n_approved = length (filter (\<lambda>t. status t = Approved) txns);
          n_declined = length (filter (\<lambda>t. status t = Declined) txns);
          n_total = length txns
      in \<lparr> dimension = fst entry,
           dim_approved = n_approved,
           dim_declined = n_declined,
           dim_total = n_total,
           dim_authorizationRate = rate_of n_approved n_total,
           totalAmount = sum_amounts (filter (\<lambda>t. status t = Approved) txns) \<rparr>)"

definition groupByDimension ::
  "Transaction list \<Rightarrow> GroupByDimension \<Rightarrow> DimensionAggregate list" where
  "groupByDimension transactions d =
     sort_by (\<lambda>a b. int (dim_total b) - int (dim_total a))
       (map aggregate (group_by_field d transactions))"

section \<open>Grouping by time (src/lib/analytics.ts, groupByTime)\<close>

datatype TimeGranularity = day | week | month

text \<open>
  The functions of the date library that \<^verbatim>\<open>groupByTime\<close> calls are not part of the
  repository; they are parameters: \<^verbatim>\<open>format(date, 'yyyy-MM-dd')\<close>, \<^verbatim>\<open>startOfWeek\<close>,
  \<^verbatim>\<open>startOfMonth\<close>, and \<^verbatim>\<open>new Date(dateStr).getTime()\<close>.
\<close>

record DateLib =
  format_ymd :: "int \<Rightarrow> string"
  startOfWeek :: "int \<Rightarrow> int"
  startOfMonth :: "int \<Rightarrow> int"
  getTime :: "string \<Rightarrow> int"

record TimeSeriesDataPoint =
  date :: string
  point_timestamp :: int
  point_approved :: nat
  point_declined :: nat
  point_total :: nat
  point_authorizationRate :: number

fun formatDate :: "DateLib \<Rightarrow> TimeGranularity \<Rightarrow> int \<Rightarrow> string" where
  "formatDate lib day d = format_ymd lib d"
| "formatDate lib week d = format_ymd lib (startOfWeek lib d)"
| "formatDate lib month d = format_ymd lib (startOfMonth lib d)"

definition group_by_date ::
  "DateLib \<Rightarrow> TimeGranularity \<Rightarrow> Transaction list \<Rightarrow> (string \<times> Transaction list) list" where
  "group_by_date lib g txns =
     foldl (\<lambda>acc t. push_group (formatDate lib g (timestamp t)) t acc) [] txns"

definition data_point :: "DateLib \<Rightarrow> string \<times> Transaction list \<Rightarrow> TimeSeriesDataPoint" where
  "data_point lib entry =
     (let txns = snd entry;
          n_approved = length (filter (\<lambda>t. status t = Approved) txns);
          n_declined = length (filter (\<lambda>t. status t = Declined) txns);
          n_total = length txns
      in \<lparr> date = fst entry,
           point_timestamp = getTime lib (fst entry),
           point_approved = n_approved,
           point_declined = n_declined,
           point_total = n_total,
           point_authorizationRate = rate_of n_approved n_total \<rparr>)"

definition groupByTime ::
  "DateLib \<Rightarrow> Transaction list \<Rightarrow> TimeGranularity \<Rightarrow> TimeSeriesDataPoint list" where
  "groupByTime lib transactions g =
     sort_by (\<lambda>a b. point_timestamp a - point_timestamp b)
       (map (data_point lib) (group_by_date lib g transactions))"

section \<open>The filter store (useFilterStore)\<close>

text \<open>
  The state of the store. \<^verbatim>\<open>set(state => partial)\<close> merges the returned fields into the
  state; \<^verbatim>\<open>get()\<close> reads it. The transactions loaded from the JSON file are a parameter.
\<close>

record FilterState =
  allTransactions :: "Transaction list"
  filters :: TransactionFilters
  filteredTransactions :: "Transaction list"

definition initialFilters :: TransactionFilters where
  "initialFilters =
     \<lparr> dateRange = \<lparr> start_date = None, end_date = None \<rparr>,
       countries = [],
       paymentMethods = [],
       processors = [],
       declineCodes = [],
       declineTypes = [] \<rparr>"

definition initial_state :: "Transaction list \<Rightarrow> FilterState" where
  "initial_state transactionsData =
     \<lparr> allTransactions = transactionsData,
       filters = initialFilters,
       filteredTransactions = transactionsData \<rparr>"

definition setDateRange :: "DateRange \<Rightarrow> FilterState \<Rightarrow> FilterState" where
  "setDateRange r state =
     (let newFilters = (filters state)\<lparr>dateRange := r\<rparr>
      in state\<lparr> filters := newFilters,
                filteredTransactions :=
                  filterTransactions (allTransactions state) (as_partial newFilters) \<rparr>)"

definition setCountries :: "Country list \<Rightarrow> FilterState \<Rightarrow> FilterState" where
  "setCountries cs state =
     (let newFilters = (filters state)\<lparr>countries := cs\<rparr>
      in state\<lparr> filters := newFilters,
                filteredTransactions :=
                  filterTransactions (allTransactions state) (as_partial newFilters) \<rparr>)"

definition setPaymentMethods :: "PaymentMethod list \<Rightarrow> FilterState \<Rightarrow> FilterState" where
  "setPaymentMethods methods state =
     (let newFilters = (filters state)\<lparr>paymentMethods := methods\<rparr>
      in state\<lparr> filters := newFilters,
                filteredTransactions :=
                  filterTransactions (allTransactions state) (as_partial newFilters) \<rparr>)"

definition setProcessors :: "Processor list \<Rightarrow> FilterState \<Rightarrow> FilterState" where
  "setProcessors ps state =
     (let newFilters = (filters state)\<lparr>processors := ps\<rparr>
      in state\<lparr> filters := newFilters,
                filteredTransactions :=
                  filterTransactions (allTransactions state) (as_partial newFilters) \<rparr>)"

definition setDeclineCodes :: "DeclineCode list \<Rightarrow> FilterState \<Rightarrow> FilterState" where
  "setDeclineCodes codes state =
     (let newFilters = (filters state)\<lparr>declineCodes := codes\<rparr>
      in state\<lparr> filters := newFilters,
                filteredTransactions :=
                  filterTransactions (allTransactions state) (as_partial newFilters) \<rparr>)"

definition setDeclineTypes :: "DeclineType list \<Rightarrow> FilterState \<Rightarrow> FilterState" where
  "setDeclineTypes types state =
     (let newFilters = (filters state)\<lparr>declineTypes := types\<rparr>
      in state\<lparr> filters := newFilters,
                filteredTransactions :=
                  filterTransactions (allTransactions state) (as_partial newFilters) \<rparr>)"

text \<open>
  The update every toggle computes:
  \<^verbatim>\<open>current.includes(x) ? current.filter(y => y !== x) : [...current, x]\<close>.
\<close>

definition toggled :: "'a \<Rightarrow> 'a list \<Rightarrow> 'a list" where
  "toggled x current = (if x \<in> set current then filter (\<lambda>y. y \<noteq> x) current else current @ [x])"

definition toggleCountry :: "Country \<Rightarrow> FilterState \<Rightarrow> FilterState" where
  "toggleCountry c state = setCountries (toggled c (countries (filters state))) state"

definition togglePaymentMethod :: "PaymentMethod \<Rightarrow> FilterState \<Rightarrow> FilterState" where
  "togglePaymentMethod m state =
     setPaymentMethods (toggled m (paymentMethods (filters state))) state"

definition toggleProcessor :: "Processor \<Rightarrow> FilterState \<Rightarrow> FilterState" where
  "toggleProcessor p state = setProcessors (toggled p (processors (filters state))) state"

definition toggleDeclineCode :: "DeclineCode \<Rightarrow> FilterState \<Rightarrow> FilterState" where
  "toggleDeclineCode c state = setDeclineCodes (toggled c (declineCodes (filters state))) state"

definition toggleDeclineType :: "DeclineType \<Rightarrow> FilterState \<Rightarrow> FilterState" where
  "toggleDeclineType ty state =
     setDeclineTypes (toggled ty (declineTypes (filters state))) state"

definition resetFilters :: "FilterState \<Rightarrow> FilterState" where
  "resetFilters state =
     state\<lparr> filters := initialFilters, filteredTransactions := allTransactions state \<rparr>"

text \<open>A call of one of the twelve operations of the store, and a sequence of calls.\<close>

datatype Action =
    SetDateRange DateRange
  | SetCountries "Country list"
  | SetPaymentMethods "PaymentMethod list"
  | SetProcessors "Processor list"
  | SetDeclineCodes "DeclineCode list"
  | SetDeclineTypes "DeclineType list"
  | ToggleCountry Country
  | TogglePaymentMethod PaymentMethod
  | ToggleProcessor Processor
  | ToggleDeclineCode DeclineCode
  | ToggleDeclineType DeclineType
  | ResetFilters

fun call :: "Action \<Rightarrow> FilterState \<Rightarrow> FilterState" where
  "call (SetDateRange r) s = setDateRange r s"
| "call (SetCountries cs) s = setCountries cs s"
| "call (SetPaymentMethods ms) s = setPaymentMethods ms s"
| "call (SetProcessors ps) s = setProcessors ps s"
| "call (SetDeclineCodes ds) s = setDeclineCodes ds s"
| "call (SetDeclineTypes ts) s = setDeclineTypes ts s"
| "call (ToggleCountry c) s = toggleCountry c s"
| "call (TogglePaymentMethod m) s = togglePaymentMethod m s"
| "call (ToggleProcessor p) s = toggleProcessor p s"
| "call (ToggleDeclineCode c) s = toggleDeclineCode c s"
| "call (ToggleDeclineType ty) s = toggleDeclineType ty s"
| "call ResetFilters s = resetFilters s"

definition run :: "Action list \<Rightarrow> FilterState \<Rightarrow> FilterState" where
  "run actions s = foldl (\<lambda>st a. call a st) s actions"

text \<open>The states the store can be in: those a sequence of calls reaches from the start.\<close>

definition reachable :: "Transaction list \<Rightarrow> FilterState \<Rightarrow> bool" where
  "reachable transactionsData s = (\<exists>actions. s = run actions (initial_state transactionsData))"

text \<open>The filtered view agrees with the filters that are stored next to it.\<close>

definition consistent :: "FilterState \<Rightarrow> bool" where
  "consistent s =
     (filteredTransactions s = filterTransactions (allTransactions s) (as_partial (filters s)))"

section \<open>Sample data\<close>

definition tx1 :: Transaction where
  "tx1 = \<lparr> tx_id = ''t1'', amount = 100, currency = MXN, country = Mexico,
           payment_method = credit_card, processor = PagosRapid, status = Approved,
           decline_code = None, timestamp = 1000 \<rparr>"

definition tx2 :: Transaction where
  "tx2 = \<lparr> tx_id = ''t2'', amount = 50, currency = BRL, country = Brazil,
           payment_method = pix, processor = BrasilPay, status = Declined,
           decline_code = Some insufficient_funds, timestamp = 2000 \<rparr>"

definition tx3 :: Transaction where
  "tx3 = \<lparr> tx_id = ''t3'', amount = 150, currency = COP, country = Colombia,
           payment_method = pse, processor = AcquireLocal, status = Declined,
           decline_code = Some suspected_fraud, timestamp = 3000 \<rparr>"

definition tx4 :: Transaction where
  "tx4 = \<lparr> tx_id = ''t4'', amount = 30, currency = BRL, country = Brazil,
           payment_method = boleto, processor = BrasilPay, status = Declined,
           decline_code = Some insufficient_funds, timestamp = 4000 \<rparr>"

definition no_filters :: PartialFilters where
  "no_filters =
     \<lparr> dateRange_opt = None, countries_opt = None, paymentMethods_opt = None,
       processors_opt = None, declineCodes_opt = None, declineTypes_opt = None \<rparr>"

definition soft_only :: PartialFilters where
  "soft_only = no_filters\<lparr>declineTypes_opt := Some [Soft]\<rparr>"

definition soft_insufficient :: PartialFilters where
  "soft_insufficient =
     no_filters\<lparr>declineCodes_opt := Some [insufficient_funds], declineTypes_opt := Some [Soft]\<rparr>"

definition two_selected :: FilterState where
  "two_selected = run [ToggleCountry Mexico, ToggleCountry Brazil] (initial_state [tx1, tx2])"

definition tx5 :: Transaction where
  "tx5 = \<lparr> tx_id = ''t5'', amount = 20, currency = MXN, country = Mexico,
           payment_method = debit_card, processor = PagosRapid, status = Declined,
           decline_code = Some timeout, timestamp = 90000000 \<rparr>"

text \<open>
  A stand-in for the date library, right for the time values of the first two days of 1970
  (UTC), whose week began on Sunday 1969-12-28.
\<close>

definition sample_lib :: DateLib where
  "sample_lib =
     \<lparr> format_ymd = (\<lambda>d. if d < 0 then ''1969-12-28''
                          else if d < 86400000 then ''1970-01-01'' else ''1970-01-02''),
       startOfWeek = (\<lambda>d. - 345600000),
       startOfMonth = (\<lambda>d. 0),
       getTime = (\<lambda>s. if s = ''1969-12-28'' then - 345600000
                       else if s = ''1970-01-01'' then 0 else 86400000) \<rparr>"

text \<open>
  Four transactions whose amounts are the binary64 values of the decimal literals 359.52,
  1178.18, 3199.14 and 1665.58.
\<close>

definition pay1 :: Transaction where
  "pay1 = \<lparr> tx_id = ''p1'', amount = 790592840836055 / 2199023255552, currency = MXN,
            country = Mexico, payment_method = credit_card, processor = PagosRapid,
            status = Declined, decline_code = Some timeout, timestamp = 1000 \<rparr>"

definition pay2 :: Transaction where
  "pay2 = \<lparr> tx_id = ''p2'', amount = 5181690438452511 / 4398046511104, currency = MXN,
            country = Mexico, payment_method = credit_card, processor = PagosRapid,
            status = Declined, decline_code = Some card_expired, timestamp = 2000 \<rparr>"

definition pay3 :: Transaction where
  "pay3 = \<lparr> tx_id = ''p3'', amount = 7034983257766625 / 2199023255552, currency = MXN,
            country = Mexico, payment_method = credit_card, processor = PagosRapid,
            status = Approved, decline_code = None, timestamp = 3000 \<rparr>"

definition pay4 :: Transaction where
  "pay4 = \<lparr> tx_id = ''p4'', amount = 915662288495575 / 549755813888, currency = MXN,
            country = Mexico, payment_method = credit_card, processor = PagosRapid,
            status = Approved, decline_code = None, timestamp = 4000 \<rparr>"

definition payments :: "Transaction list" where
  "payments = [pay1, pay2, pay3, pay4]"

section \<open>The filter passes exactly what the six checks pass\<close>

lemma date_rejects_iff: "date_rejects (dateRange_opt f) t = (\<not> check_date f t)"
  by (auto simp: date_rejects_def check_date_def split: option.splits)

lemma country_rejects_iff:
  "(case countries_opt f of Some cs \<Rightarrow> length cs > 0 \<and> country t \<notin> set cs | None \<Rightarrow> False)
   = (\<not> check_country f t)"
  by (auto simp: check_country_def split: option.splits)

lemma paymentMethod_rejects_iff:
  "(case paymentMethods_opt f of
      Some ms \<Rightarrow> length ms > 0 \<and> payment_method t \<notin> set ms | None \<Rightarrow> False)
   = (\<not> check_paymentMethod f t)"
  by (auto simp: check_paymentMethod_def split: option.splits)

lemma processor_rejects_iff:
  "(case processors_opt f of Some ps \<Rightarrow> length ps > 0 \<and> processor t \<notin> set ps | None \<Rightarrow> False)
   = (\<not> check_processor f t)"
  by (auto simp: check_processor_def split: option.splits)

lemma declineCode_rejects_iff:
  "(case declineCodes_opt f of
      Some ds \<Rightarrow> length ds > 0 \<and>
        (case (status t, decline_code t) of (Declined, Some c) \<Rightarrow> c \<notin> set ds | _ \<Rightarrow> True)
    | None \<Rightarrow> False)
   = (\<not> check_declineCode f t)"
  by (cases "status t") (auto simp: check_declineCode_def split: option.splits)

lemma declineType_rejects_iff:
  "(case declineTypes_opt f of
      Some ts \<Rightarrow> length ts > 0 \<and>
        (case (status t, decline_code t) of
           (Declined, Some c) \<Rightarrow> classifyDecline c \<notin> set ts | _ \<Rightarrow> True)
    | None \<Rightarrow> False)
   = (\<not> check_declineType f t)"
  by (cases "status t") (auto simp: check_declineType_def split: option.splits)

lemma keeps_iff_checks: "keeps f t = passes_all_checks f t"
  unfolding keeps_def date_rejects_iff country_rejects_iff paymentMethod_rejects_iff
    processor_rejects_iff declineCode_rejects_iff declineType_rejects_iff
    passes_all_checks_def
  by simp

lemma keeps_initialFilters: "keeps (as_partial initialFilters) t"
  by (simp add: keeps_iff_checks passes_all_checks_def as_partial_def initialFilters_def
      check_date_def check_country_def check_paymentMethod_def check_processor_def
      check_declineCode_def check_declineType_def)

lemma filter_initialFilters: "filterTransactions T (as_partial initialFilters) = T"
  by (simp add: filterTransactions_def keeps_initialFilters)

section \<open>The classification table\<close>

lemma classifyDecline_raw_name: "classifyDecline_raw (decline_code_name c) = classifyDecline c"
  by (cases c) (simp_all add: classifyDecline_raw_def classifyDecline_def softDeclines_def)

lemma classifyDecline_raw_table:
  "classifyDecline_raw s =
     (if s \<in> {''insufficient_funds'', ''issuer_unavailable'', ''processing_error'', ''timeout''}
      then Soft else Hard)"
  by (simp add: classifyDecline_raw_def softDeclines_def)

text \<open>
  C8. \<open>classifyDecline\<close> is a total function; it answers \<open>Soft\<close> exactly for the four
  codes insufficient funds, issuer unavailable, processing error and timeout, and \<open>Hard\<close>
  for every other code: for the six listed hard codes and, on a string that is in neither
  list, by the final default.
\<close>

theorem classifyDecline_soft_iff:
  "(classifyDecline c = Soft \<longleftrightarrow>
      c \<in> {insufficient_funds, issuer_unavailable, processing_error, timeout}) \<and>
   (classifyDecline c = Hard \<longleftrightarrow>
      c \<notin> {insufficient_funds, issuer_unavailable, processing_error, timeout}) \<and>
   classifyDecline_raw (decline_code_name c) = classifyDecline c \<and>
   classifyDecline_raw s =
     (if s \<in> {''insufficient_funds'', ''issuer_unavailable'', ''processing_error'', ''timeout''}
      then Soft else Hard)"
proof -
  have "classifyDecline c = Soft \<longleftrightarrow>
          c \<in> {insufficient_funds, issuer_unavailable, processing_error, timeout}"
    by (cases c) (simp_all add: classifyDecline_def softDeclines_def hardDeclines_def)
  moreover have "classifyDecline c = Hard \<longleftrightarrow>
          c \<notin> {insufficient_funds, issuer_unavailable, processing_error, timeout}"
    by (cases c) (simp_all add: classifyDecline_def softDeclines_def hardDeclines_def)
  ultimately show ?thesis
    using classifyDecline_raw_name [of c] classifyDecline_raw_table [of s] by blast
qed

theorem classifyDecline_soft_iff_witness:
  "classifyDecline timeout = Soft \<and> classifyDecline lost_stolen_card = Hard \<and>
   classifyDecline_raw ''timeout'' = Soft \<and> classifyDecline_raw ''lost_stolen_card'' = Hard \<and>
   classifyDecline_raw ''expired_token'' = Hard"
  using classifyDecline_soft_iff [of timeout "''timeout''"]
    classifyDecline_soft_iff [of lost_stolen_card "''lost_stolen_card''"]
    classifyDecline_soft_iff [of timeout "''expired_token''"]
  by simp

section \<open>What the filter keeps\<close>

text \<open>
  C2. The result of \<open>filterTransactions\<close> holds only elements of its input, and an element
  of the input is in the result exactly when it passes the six checks (date range, country,
  payment method, processor, decline code, decline type), an absent or empty criterion
  being a pass; the result is the input restricted to those elements, in the input's order.
\<close>

theorem filterTransactions_checks:
  "set (filterTransactions T F) \<subseteq> set T \<and>
   (\<forall>t \<in> set T. t \<in> set (filterTransactions T F) \<longleftrightarrow> passes_all_checks F t) \<and>
   filterTransactions T F = filter (passes_all_checks F) T"
proof -
  have "keeps F = passes_all_checks F"
    by (rule ext) (rule keeps_iff_checks)
  then show ?thesis
    by (simp add: filterTransactions_def)
qed

lemma sample_distinct: "tx1 \<noteq> tx2" "tx1 \<noteq> tx3" "tx2 \<noteq> tx3"
  by (simp_all add: tx1_def tx2_def tx3_def)

theorem filterTransactions_checks_witness:
  "tx2 \<in> set (filterTransactions [tx1, tx2, tx3] soft_only) \<and> passes_all_checks soft_only tx2 \<and>
   tx1 \<notin> set (filterTransactions [tx1, tx2, tx3] soft_only) \<and> \<not> passes_all_checks soft_only tx1 \<and>
   tx3 \<notin> set (filterTransactions [tx1, tx2, tx3] soft_only) \<and> \<not> passes_all_checks soft_only tx3"
proof -
  have p2: "passes_all_checks soft_only tx2"
    by (simp add: passes_all_checks_def soft_only_def no_filters_def tx2_def
        check_date_def check_country_def check_paymentMethod_def check_processor_def
        check_declineCode_def check_declineType_def classifyDecline_def softDeclines_def)
  have p1: "\<not> passes_all_checks soft_only tx1"
    by (simp add: passes_all_checks_def soft_only_def no_filters_def tx1_def
        check_declineType_def)
  have p3: "\<not> passes_all_checks soft_only tx3"
    by (simp add: passes_all_checks_def soft_only_def no_filters_def tx3_def
        check_declineType_def classifyDecline_def softDeclines_def hardDeclines_def)
  from filterTransactions_checks [of "[tx1, tx2, tx3]" soft_only] p1 p2 p3 sample_distinct
  show ?thesis by auto
qed

text \<open>
  C3. When \<open>declineCodes\<close> (respectively \<open>declineTypes\<close>) is non-empty, every element of
  the filter's result is declined, hence not approved, and carries a decline code that is
  in the list (respectively whose class is in the list).
\<close>

theorem decline_filters_keep_only_declined:
  assumes "t \<in> set (filterTransactions T F)"
  shows "(\<forall>ds. declineCodes_opt F = Some ds \<and> ds \<noteq> [] \<longrightarrow>
            status t = Declined \<and> status t \<noteq> Approved \<and>
            (\<exists>c. decline_code t = Some c \<and> c \<in> set ds)) \<and>
         (\<forall>ts. declineTypes_opt F = Some ts \<and> ts \<noteq> [] \<longrightarrow>
            status t = Declined \<and> status t \<noteq> Approved \<and>
            (\<exists>c. decline_code t = Some c \<and> classifyDecline c \<in> set ts))"
proof -
  from assms have "passes_all_checks F t"
    by (simp add: filterTransactions_def keeps_iff_checks)
  then have c: "check_declineCode F t" and ty: "check_declineType F t"
    by (simp_all add: passes_all_checks_def)
  from c have "\<forall>ds. declineCodes_opt F = Some ds \<and> ds \<noteq> [] \<longrightarrow>
            status t = Declined \<and> status t \<noteq> Approved \<and>
            (\<exists>c. decline_code t = Some c \<and> c \<in> set ds)"
    by (auto simp: check_declineCode_def split: option.splits)
  moreover from ty have "\<forall>ts. declineTypes_opt F = Some ts \<and> ts \<noteq> [] \<longrightarrow>
            status t = Declined \<and> status t \<noteq> Approved \<and>
            (\<exists>c. decline_code t = Some c \<and> classifyDecline c \<in> set ts)"
    by (auto simp: check_declineType_def split: option.splits)
  ultimately show ?thesis by (rule conjI)
qed

theorem decline_filters_keep_only_declined_witness:
  "tx2 \<in> set (filterTransactions [tx1, tx2, tx3] soft_insufficient) \<and>
   declineCodes_opt soft_insufficient = Some [insufficient_funds] \<and>
   declineTypes_opt soft_insufficient = Some [Soft] \<and>
   status tx2 = Declined \<and> decline_code tx2 = Some insufficient_funds \<and>
   classifyDecline insufficient_funds = Soft"
proof -
  have k: "keeps soft_insufficient tx2"
    by (simp add: keeps_iff_checks passes_all_checks_def soft_insufficient_def no_filters_def
        tx2_def check_date_def check_country_def check_paymentMethod_def check_processor_def
        check_declineCode_def check_declineType_def classifyDecline_def softDeclines_def)
  then have m: "tx2 \<in> set (filterTransactions [tx1, tx2, tx3] soft_insufficient)"
    by (simp add: filterTransactions_def)
  have f: "declineCodes_opt soft_insufficient = Some [insufficient_funds]"
     "declineTypes_opt soft_insufficient = Some [Soft]"
    by (simp_all add: soft_insufficient_def)
  from decline_filters_keep_only_declined [OF m] f m
  show ?thesis by (auto simp: tx2_def)
qed

text \<open>
  C10. Filtering with the store's initial filters (no date bound, five empty lists) gives
  back the input list unchanged, with the same elements in the same order.
\<close>

theorem no_constraint_filter_identity:
  "filterTransactions T (as_partial initialFilters) = T"
  by (rule filter_initialFilters)

theorem no_constraint_filter_identity_witness:
  "filterTransactions [tx3, tx1, tx2, tx1] (as_partial initialFilters) = [tx3, tx1, tx2, tx1]"
  using no_constraint_filter_identity [of "[tx3, tx1, tx2, tx1]"] by simp

section \<open>Revenue is split between approved and declined\<close>

lemma sum_amounts_from: "foldl (\<lambda>sum t. sum + amount t) a txns = a + sum_list (map amount txns)"
  by (induction txns arbitrary: a) simp_all

lemma sum_amounts_sum_list: "sum_amounts txns = sum_list (map amount txns)"
  by (simp add: sum_amounts_def sum_amounts_from)

lemma by_status:
  fixes f :: "Transaction \<Rightarrow> rat"
  shows "sum_list (map f (filter (\<lambda>t. status t = Approved) T)) +
         sum_list (map f (filter (\<lambda>t. status t = Declined) T)) = sum_list (map f T)"
proof (induction T)
  case Nil
  show ?case by simp
next
  case (Cons t T)
  then show ?case by (cases "status t") simp_all
qed

subsection \<open>Binary64 rounding and its error\<close>

lemma pow2_powi: "pow2 e = 2 powi e"
  by (simp add: pow2_def power_int_def power_one_over inverse_eq_divide)

lemma pow2_pos: "0 < pow2 e"
  by (simp add: pow2_powi)

lemma pow2_Suc: "pow2 (e + 1) = 2 * pow2 e"
  by (simp add: pow2_powi power_int_add)

lemma pow2_add: "pow2 (a + b) = pow2 a * pow2 b"
  by (simp add: pow2_powi power_int_add)

lemma pow2_pred: "pow2 (e - 1) = pow2 e / 2"
  using pow2_Suc [of "e - 1"] by simp

lemma pow2_nat: "0 \<le> e \<Longrightarrow> pow2 e = 2 ^ nat e"
  by (simp add: pow2_def)

lemma rne_error: "\<bar>of_int (rne y) - y\<bar> \<le> 1 / 2"
proof -
  define n where "n = \<lfloor>y\<rfloor>"
  define f where "f = y - of_int n"
  have f: "0 \<le> f" "f < 1"
    unfolding f_def n_def by linarith+
  have y: "y = of_int n + f"
    by (simp add: f_def)
  have r: "rne y = (if f < 1 / 2 then n else if 1 / 2 < f then n + 1
                    else if even n then n else n + 1)"
    unfolding rne_def Let_def f_def n_def by (rule refl)
  have lo: "\<bar>of_int n - y\<bar> = f" and hi: "\<bar>of_int (n + 1) - y\<bar> = 1 - f"
    using f by (simp_all add: y)
  have "(rne y = n \<and> f \<le> 1 / 2) \<or> (rne y = n + 1 \<and> 1 / 2 \<le> f)"
    unfolding r by auto
  then show ?thesis
  proof
    assume "rne y = n \<and> f \<le> 1 / 2"
    with lo show ?thesis by simp
  next
    assume "rne y = n + 1 \<and> 1 / 2 \<le> f"
    with hi show ?thesis by simp
  qed
qed

lemma rne_of_int: "rne (of_int k) = k"
  by (simp add: rne_def)

lemma norm_down_inv:
  assumes "norm_down y e = (y', e')"
  shows "y' * pow2 e' = y * pow2 e \<and> e \<le> e' \<and> y' < 2 ^ 53 \<and> ((y' = y \<and> e' = e) \<or> 2 ^ 52 \<le> y')"
  using assms
proof (induction y e rule: norm_down.induct)
  case (1 y e)
  show ?case
  proof (cases "2 ^ 53 \<le> y")
    case True
    with "1.prems" have r: "norm_down (y / 2) (e + 1) = (y', e')"
      by (simp add: norm_down.simps [of y e])
    from "1.IH" [OF True r]
    have a: "y' * pow2 e' = y / 2 * pow2 (e + 1)" and b: "e + 1 \<le> e'" and c: "y' < 2 ^ 53"
      and d: "(y' = y / 2 \<and> e' = e + 1) \<or> 2 ^ 52 \<le> y'"
      by simp_all
    from a have "y' * pow2 e' = y * pow2 e"
      by (simp add: pow2_Suc)
    moreover from d True have "2 ^ 52 \<le> y'"
      by auto
    ultimately show ?thesis
      using b c by simp
  next
    case False
    with "1.prems" have "y' = y" "e' = e"
      by (simp_all add: norm_down.simps [of y e])
    with False show ?thesis by simp
  qed
qed

lemma norm_up_inv:
  assumes "norm_up y e = (y', e')" and "- 1074 \<le> e" and "y < 2 ^ 53"
  shows "y' * pow2 e' = y * pow2 e \<and> - 1074 \<le> e' \<and> y' < 2 ^ 53 \<and>
         (2 ^ 52 \<le> y' \<or> e' = - 1074)"
  using assms
proof (induction y e rule: norm_up.induct)
  case (1 y e)
  show ?case
  proof (cases "y < 2 ^ 52 \<and> - 1074 < e")
    case True
    with "1.prems" have r: "norm_up (2 * y) (e - 1) = (y', e')"
      by (simp add: norm_up.simps [of y e])
    from True have "- 1074 \<le> e - 1" "2 * y < 2 ^ 53"
      by simp_all
    from "1.IH" [OF True r this]
    have a: "y' * pow2 e' = 2 * y * pow2 (e - 1)" and rest: "- 1074 \<le> e'" "y' < 2 ^ 53"
      "2 ^ 52 \<le> y' \<or> e' = - 1074"
      by simp_all
    from a have "y' * pow2 e' = y * pow2 e"
      by (simp add: pow2_pred)
    with rest show ?thesis by simp
  next
    case False
    with "1.prems" have "y' = y" "e' = e"
      by (auto simp: norm_up.simps [of y e] split: if_splits)
    with False "1.prems" show ?thesis by auto
  qed
qed

lemma on_gridI: "x * pow2 1074 = of_int k \<Longrightarrow> on_grid x"
  by (simp add: on_grid_def)

lemma on_gridE: "on_grid x \<Longrightarrow> \<exists>k. x * pow2 1074 = of_int k"
  by (metis on_grid_def)

lemma on_grid_0: "on_grid 0"
  by (simp add: on_grid_def)

lemma on_grid_add: "on_grid a \<Longrightarrow> on_grid b \<Longrightarrow> on_grid (a + b)"
proof -
  assume "on_grid a" "on_grid b"
  then obtain k l where "a * pow2 1074 = of_int k" "b * pow2 1074 = of_int l"
    by (blast dest: on_gridE)
  then have "(a + b) * pow2 1074 = of_int (k + l)"
    by (simp add: distrib_right)
  then show ?thesis by (rule on_gridI)
qed

lemma pow2_cancel: "pow2 e * pow2 (- e) = 1"
  using pow2_add [of e "- e"] by (simp add: pow2_def)

lemma round64_cases:
  assumes "round64 x = Num r" and "x \<noteq> 0"
  obtains y e where "y * pow2 e = \<bar>x\<bar>" and "- 1074 \<le> e" and "y < 2 ^ 53"
    and "2 ^ 52 \<le> y \<or> e = - 1074" and "r = sgn x * (of_int (rne y) * pow2 e)"
proof -
  obtain y1 e1 where d: "norm_down \<bar>x\<bar> 0 = (y1, e1)"
    by (cases "norm_down \<bar>x\<bar> 0")
  obtain y e where u: "norm_up y1 e1 = (y, e)"
    by (cases "norm_up y1 e1")
  have one: "pow2 0 = 1"
    by (simp add: pow2_def)
  from norm_down_inv [OF d] have d1: "y1 * pow2 e1 = \<bar>x\<bar>" and d2: "0 \<le> e1" and d3: "y1 < 2 ^ 53"
    by (simp_all add: one)
  from d2 have "- 1074 \<le> e1" by simp
  from norm_up_inv [OF u this d3] d1
  have u1: "y * pow2 e = \<bar>x\<bar>" and u2: "- 1074 \<le> e" and u3: "y < 2 ^ 53"
    and u4: "2 ^ 52 \<le> y \<or> e = - 1074"
    by simp_all
  from assms have "r = sgn x * (of_int (rne y) * pow2 e)"
    by (simp add: round64_def Let_def d u split: if_splits)
  with u1 u2 u3 u4 show thesis by (rule that)
qed

lemma round64_on_grid:
  assumes "round64 x = Num r"
  shows "on_grid r"
proof (cases "x = 0")
  case True
  with assms show ?thesis by (simp add: round64_def on_grid_0)
next
  case False
  from assms False obtain y e where e: "- 1074 \<le> e"
    and r: "r = sgn x * (of_int (rne y) * pow2 e)"
    by (rule round64_cases)
  from e have p: "pow2 (e + 1074) = of_int (2 ^ nat (e + 1074))"
    by (simp add: pow2_nat)
  have "\<exists>k::int. sgn x = of_int k"
    by (metis of_int_1 of_int_minus of_int_0 sgn_if)
  then obtain sg :: int where sg: "sgn x = of_int sg" ..
  have "r * pow2 1074 = sgn x * of_int (rne y) * (pow2 e * pow2 1074)"
    by (simp add: r)
  also have "\<dots> = of_int (sg * rne y * 2 ^ nat (e + 1074))"
    by (simp add: pow2_add [symmetric] p sg)
  finally show ?thesis by (rule on_gridI)
qed

lemma round64_error:
  assumes g: "on_grid x" and r: "round64 x = Num r"
  shows "\<bar>r - x\<bar> \<le> \<bar>x\<bar> / 2 ^ 53"
proof (cases "x = 0")
  case True
  with r show ?thesis by (simp add: round64_def)
next
  case False
  from r False obtain y e where ye: "y * pow2 e = \<bar>x\<bar>"
    and c: "2 ^ 52 \<le> y \<or> e = - 1074"
    and rr: "r = sgn x * (of_int (rne y) * pow2 e)"
    by (rule round64_cases)
  have x: "x = sgn x * \<bar>x\<bar>"
    by (simp add: sgn_if)
  have "\<bar>r - x\<bar> = \<bar>sgn x * (of_int (rne y) * pow2 e - y * pow2 e)\<bar>"
    using x by (simp add: rr ye right_diff_distrib)
  also have "\<dots> = \<bar>of_int (rne y) - y\<bar> * pow2 e"
    using False pow2_pos [of e]
    by (simp add: abs_mult left_diff_distrib [symmetric] abs_sgn_eq)
  finally have err: "\<bar>r - x\<bar> = \<bar>of_int (rne y) - y\<bar> * pow2 e" .
  from c show ?thesis
  proof
    assume big: "2 ^ 52 \<le> y"
    have "\<bar>of_int (rne y) - y\<bar> \<le> 1 / 2"
      by (rule rne_error)
    also have "\<dots> \<le> y / 2 ^ 53"
      using big by simp
    finally have "\<bar>of_int (rne y) - y\<bar> * pow2 e \<le> y / 2 ^ 53 * pow2 e"
      using pow2_pos [of e] by (simp add: mult_right_mono)
    also have "\<dots> = \<bar>x\<bar> / 2 ^ 53"
      using ye by simp
    finally show ?thesis by (simp only: err)
  next
    assume e: "e = - 1074"
    from g obtain k where k: "x * pow2 1074 = of_int k"
      by (blast dest: on_gridE)
    have "y = y * (pow2 e * pow2 (- e))"
      by (simp add: pow2_cancel)
    also have "\<dots> = \<bar>x\<bar> * pow2 1074"
      using ye by (simp add: e mult.assoc [symmetric])
    also have "\<dots> = \<bar>x * pow2 1074\<bar>"
      using pow2_pos [of 1074] by (simp add: abs_mult)
    also have "\<dots> = of_int \<bar>k\<bar>"
      by (simp add: k)
    finally have yk: "y = of_int \<bar>k\<bar>" .
    have "rne y = \<bar>k\<bar>"
      unfolding yk by (rule rne_of_int)
    with yk have "\<bar>of_int (rne y) - y\<bar> = 0" by simp
    with err show ?thesis by simp
  qed
qed

lemma add64_error:
  assumes "on_grid a" "on_grid b" "add64 (Num a) (Num b) = Num r"
  shows "\<bar>r - (a + b)\<bar> \<le> \<bar>a + b\<bar> / 2 ^ 53 \<and> on_grid r"
  using assms round64_error [of "a + b" r] round64_on_grid [of "a + b" r]
  by (simp add: on_grid_add)

lemma is_binary64_on_grid: "is_binary64 x \<Longrightarrow> on_grid x"
  unfolding is_binary64_def by (rule round64_on_grid)

lemma rounding_bound_0: "rounding_bound 0 = 0"
  by (simp add: rounding_bound_def)

lemma rounding_bound_Suc:
  "rounding_bound (Suc n) = (1 + 1 / 2 ^ 53) * rounding_bound n + 1 / 2 ^ 53"
  by (simp add: rounding_bound_def algebra_simps)

lemma rounding_bound_nonneg: "0 \<le> rounding_bound n"
  by (simp add: rounding_bound_def)

lemma rounding_bound_mono: "m \<le> n \<Longrightarrow> rounding_bound m \<le> rounding_bound n"
  by (simp add: rounding_bound_def power_increasing)

lemma step_bound:
  fixes u E B S s s' x :: rat
  assumes u: "0 \<le> u" and E: "0 \<le> E" and sS: "\<bar>s - S\<bar> \<le> E * B" and SB: "\<bar>S\<bar> \<le> B"
    and r: "\<bar>s' - (s + x)\<bar> \<le> \<bar>s + x\<bar> * u"
  shows "\<bar>s' - (S + x)\<bar> \<le> ((1 + u) * E + u) * (B + \<bar>x\<bar>)"
proof -
  from SB have B: "0 \<le> B" by linarith
  have a: "\<bar>s + x\<bar> \<le> E * B + (B + \<bar>x\<bar>)"
    using sS SB by linarith
  have "\<bar>s' - (S + x)\<bar> \<le> \<bar>s' - (s + x)\<bar> + \<bar>s - S\<bar>"
    by linarith
  also have "\<dots> \<le> \<bar>s + x\<bar> * u + E * B"
    using r sS by linarith
  also have "\<dots> \<le> (E * B + (B + \<bar>x\<bar>)) * u + E * B"
    using mult_right_mono [OF a u] by linarith
  also have "\<dots> = (1 + u) * E * B + u * (B + \<bar>x\<bar>)"
    by (simp add: algebra_simps)
  also have "\<dots> \<le> (1 + u) * E * (B + \<bar>x\<bar>) + u * (B + \<bar>x\<bar>)"
  proof -
    have "0 \<le> (1 + u) * E" using u E by simp
    moreover have "B \<le> B + \<bar>x\<bar>" by simp
    ultimately have "(1 + u) * E * B \<le> (1 + u) * E * (B + \<bar>x\<bar>)"
      by (rule mult_left_mono [rotated])
    then show ?thesis by linarith
  qed
  also have "\<dots> = ((1 + u) * E + u) * (B + \<bar>x\<bar>)"
    by (simp add: algebra_simps)
  finally show ?thesis .
qed

lemma join_bound:
  fixes u E A D a d r BA BD :: rat
  assumes u: "0 \<le> u" and E: "0 \<le> E"
    and aA: "\<bar>a - A\<bar> \<le> E * BA" and dD: "\<bar>d - D\<bar> \<le> E * BD"
    and AB: "\<bar>A\<bar> \<le> BA" and DB: "\<bar>D\<bar> \<le> BD"
    and r: "\<bar>r - (a + d)\<bar> \<le> \<bar>a + d\<bar> * u"
  shows "\<bar>r - (A + D)\<bar> \<le> ((1 + u) * E + u) * (BA + BD)"
proof -
  have e: "E * BA + E * BD = E * (BA + BD)"
    by (simp add: algebra_simps)
  have c: "\<bar>a + d\<bar> \<le> E * (BA + BD) + (BA + BD)"
    using aA dD AB DB e by linarith
  have "\<bar>r - (A + D)\<bar> \<le> \<bar>r - (a + d)\<bar> + (\<bar>a - A\<bar> + \<bar>d - D\<bar>)"
    by linarith
  also have "\<dots> \<le> \<bar>a + d\<bar> * u + E * (BA + BD)"
    using r aA dD e by linarith
  also have "\<dots> \<le> (E * (BA + BD) + (BA + BD)) * u + E * (BA + BD)"
    using mult_right_mono [OF c u] by linarith
  also have "\<dots> = ((1 + u) * E + u) * (BA + BD)"
    by (simp add: algebra_simps)
  finally show ?thesis .
qed

lemma foldl_NotFinite: "foldl (\<lambda>s x. add64 s (Num x)) NotFinite xs = NotFinite"
  by (induction xs) simp_all

lemma fold64_bound:
  assumes "\<forall>x \<in> set xs. on_grid x" and "on_grid s"
    and "\<bar>s - S\<bar> \<le> rounding_bound k * B" and "\<bar>S\<bar> \<le> B"
    and "foldl (\<lambda>s x. add64 s (Num x)) (Num s) xs = Num r"
  shows "\<bar>r - (S + sum_list xs)\<bar> \<le>
           rounding_bound (k + length xs) * (B + sum_list (map abs xs)) \<and>
         \<bar>S + sum_list xs\<bar> \<le> B + sum_list (map abs xs)"
  using assms
proof (induction xs arbitrary: s S B k)
  case Nil
  then show ?case by simp
next
  case (Cons x xs)
  from Cons.prems have gx: "on_grid x" and gxs: "\<forall>y \<in> set xs. on_grid y"
    by simp_all
  from Cons.prems(5) have f: "foldl (\<lambda>s x. add64 s (Num x)) (add64 (Num s) (Num x)) xs = Num r"
    by simp
  obtain s' where s': "add64 (Num s) (Num x) = Num s'"
  proof (cases "add64 (Num s) (Num x)")
    case (Num q)
    then show ?thesis by (rule that)
  next
    case NotFinite
    with f show ?thesis by (simp add: foldl_NotFinite)
  qed
  from add64_error [OF Cons.prems(2) gx s']
  have e: "\<bar>s' - (s + x)\<bar> \<le> \<bar>s + x\<bar> * (1 / 2 ^ 53)" and gs: "on_grid s'"
    by simp_all
  have "\<bar>s' - (S + x)\<bar> \<le>
          ((1 + 1 / 2 ^ 53) * rounding_bound k + 1 / 2 ^ 53) * (B + \<bar>x\<bar>)"
    by (rule step_bound [OF _ rounding_bound_nonneg Cons.prems(3) Cons.prems(4) e]) simp
  then have b: "\<bar>s' - (S + x)\<bar> \<le> rounding_bound (Suc k) * (B + \<bar>x\<bar>)"
    by (simp only: rounding_bound_Suc)
  have c: "\<bar>S + x\<bar> \<le> B + \<bar>x\<bar>"
    using Cons.prems(4) by linarith
  from f s' have f': "foldl (\<lambda>s x. add64 s (Num x)) (Num s') xs = Num r"
    by simp
  from Cons.IH [OF gxs gs b c f'] show ?case
    by (simp add: add.assoc)
qed

lemma sum64_bound:
  assumes "\<forall>x \<in> set xs. on_grid x" and "sum64 xs = Num r"
  shows "\<bar>r - sum_list xs\<bar> \<le> rounding_bound (length xs) * sum_list (map abs xs) \<and>
         \<bar>sum_list xs\<bar> \<le> sum_list (map abs xs)"
  using fold64_bound [OF assms(1) on_grid_0, of 0 0 0 r] assms(2)
  by (simp add: sum64_def rounding_bound_0)

lemma fold64_on_grid:
  "on_grid s \<Longrightarrow> foldl (\<lambda>s x. add64 s (Num x)) (Num s) xs = Num r \<Longrightarrow> on_grid r"
proof (induction xs arbitrary: s)
  case Nil
  then show ?case by simp
next
  case (Cons x xs)
  from Cons.prems(2) have f: "foldl (\<lambda>s x. add64 s (Num x)) (round64 (s + x)) xs = Num r"
    by simp
  show ?case
  proof (cases "round64 (s + x)")
    case (Num q)
    then have "on_grid q" by (rule round64_on_grid)
    with f Num show ?thesis by (simp add: Cons.IH)
  next
    case NotFinite
    with f show ?thesis by (simp add: foldl_NotFinite)
  qed
qed

lemma sum64_on_grid: "sum64 xs = Num r \<Longrightarrow> on_grid r"
  unfolding sum64_def by (rule fold64_on_grid [OF on_grid_0])

lemma sum_amounts64_sum64: "sum_amounts64 txns = sum64 (map amount txns)"
  by (simp add: sum_amounts64_def sum64_def foldl_map)

subsection \<open>The revenue sums add up, to within rounding\<close>

lemma revenue64_bound:
  assumes b: "\<forall>t \<in> set T. is_binary64 (amount t)"
    and r: "add64 (totalRevenue64 T) (lostRevenue64 T) = Num r"
  shows "\<bar>r - sum_list (map amount T)\<bar> \<le>
           rounding_bound (length T + 1) * sum_list (map (\<lambda>t. \<bar>amount t\<bar>) T)"
proof -
  let ?A = "map amount (filter (\<lambda>t. status t = Approved) T)"
  let ?D = "map amount (filter (\<lambda>t. status t = Declined) T)"
  let ?n = "length T"
  obtain a d where a: "sum64 ?A = Num a" and d: "sum64 ?D = Num d"
    and ad: "add64 (Num a) (Num d) = Num r"
  proof (cases "totalRevenue64 T")
    case NotFinite
    with r show ?thesis by simp
  next
    case (Num a)
    note na = this
    show ?thesis
    proof (cases "lostRevenue64 T")
      case NotFinite
      with r na show ?thesis by simp
    next
      case (Num d)
      with na r show ?thesis
        by (intro that [of a d]) (simp_all add: totalRevenue64_def lostRevenue64_def
            sum_amounts64_sum64)
    qed
  qed
  from b have gA: "\<forall>x \<in> set ?A. on_grid x" and gD: "\<forall>x \<in> set ?D. on_grid x"
    by (auto intro: is_binary64_on_grid)
  from sum64_bound [OF gA a]
  have a1: "\<bar>a - sum_list ?A\<bar> \<le> rounding_bound (length ?A) * sum_list (map abs ?A)"
    and a2: "\<bar>sum_list ?A\<bar> \<le> sum_list (map abs ?A)"
    by simp_all
  from sum64_bound [OF gD d]
  have d1: "\<bar>d - sum_list ?D\<bar> \<le> rounding_bound (length ?D) * sum_list (map abs ?D)"
    and d2: "\<bar>sum_list ?D\<bar> \<le> sum_list (map abs ?D)"
    by simp_all
  have "rounding_bound (length ?A) \<le> rounding_bound ?n"
    by (rule rounding_bound_mono) simp
  moreover from a2 have "0 \<le> sum_list (map abs ?A)" by linarith
  ultimately have "rounding_bound (length ?A) * sum_list (map abs ?A) \<le>
                   rounding_bound ?n * sum_list (map abs ?A)"
    by (rule mult_right_mono)
  with a1 have a3: "\<bar>a - sum_list ?A\<bar> \<le> rounding_bound ?n * sum_list (map abs ?A)"
    by linarith
  have "rounding_bound (length ?D) \<le> rounding_bound ?n"
    by (rule rounding_bound_mono) simp
  moreover from d2 have "0 \<le> sum_list (map abs ?D)" by linarith
  ultimately have "rounding_bound (length ?D) * sum_list (map abs ?D) \<le>
                   rounding_bound ?n * sum_list (map abs ?D)"
    by (rule mult_right_mono)
  with d1 have d3: "\<bar>d - sum_list ?D\<bar> \<le> rounding_bound ?n * sum_list (map abs ?D)"
    by linarith
  from add64_error [OF sum64_on_grid [OF a] sum64_on_grid [OF d] ad]
  have e: "\<bar>r - (a + d)\<bar> \<le> \<bar>a + d\<bar> * (1 / 2 ^ 53)"
    by simp
  have "\<bar>r - (sum_list ?A + sum_list ?D)\<bar> \<le>
          ((1 + 1 / 2 ^ 53) * rounding_bound ?n + 1 / 2 ^ 53) *
          (sum_list (map abs ?A) + sum_list (map abs ?D))"
    by (rule join_bound [OF _ rounding_bound_nonneg a3 d3 a2 d2 e]) simp
  then have "\<bar>r - (sum_list ?A + sum_list ?D)\<bar> \<le>
          rounding_bound (Suc ?n) * (sum_list (map abs ?A) + sum_list (map abs ?D))"
    by (simp only: rounding_bound_Suc)
  moreover have "sum_list ?A + sum_list ?D = sum_list (map amount T)"
    by (rule by_status)
  moreover have "sum_list (map abs ?A) + sum_list (map abs ?D) =
                 sum_list (map (\<lambda>t. \<bar>amount t\<bar>) T)"
    using by_status [of "\<lambda>t. \<bar>amount t\<bar>" T] by (simp add: o_def)
  ultimately show ?thesis by simp
qed

subsection \<open>The sums on four two-decimal amounts\<close>

text \<open>
  The amounts of \<open>payments\<close> are the binary64 values of 359.52, 1178.18, 3199.14 and
  1665.58; the first two are declined, the last two approved.
\<close>

lemma floor_rat_numeral: "\<lfloor>numeral a / numeral b :: rat\<rfloor> = numeral a div numeral b"
  by (metis floor_divide_of_int_eq of_int_numeral)

lemma literals64:
  "round64 (35952 / 100) = Num (790592840836055 / 2199023255552)"
  "round64 (117818 / 100) = Num (5181690438452511 / 4398046511104)"
  "round64 (319914 / 100) = Num (7034983257766625 / 2199023255552)"
  "round64 (166558 / 100) = Num (915662288495575 / 549755813888)"
  unfolding round64_def Let_def rne_def pow2_def
  by (simp_all add: norm_down.simps norm_up.simps floor_rat_numeral)

lemma amounts64:
  "round64 (790592840836055 / 2199023255552) = Num (790592840836055 / 2199023255552)"
  "round64 (5181690438452511 / 4398046511104) = Num (5181690438452511 / 4398046511104)"
  "round64 (7034983257766625 / 2199023255552) = Num (7034983257766625 / 2199023255552)"
  "round64 (915662288495575 / 549755813888) = Num (915662288495575 / 549755813888)"
  unfolding round64_def Let_def rne_def pow2_def
  by (simp_all add: norm_down.simps norm_up.simps floor_rat_numeral)

lemma additions64:
  "add64 (Num (7034983257766625 / 2199023255552)) (Num (915662288495575 / 549755813888)) =
     Num (2674408102937231 / 549755813888)"
  "add64 (Num (790592840836055 / 2199023255552)) (Num (5181690438452511 / 4398046511104)) =
     Num (6762876120124621 / 4398046511104)"
  "add64 (Num (2674408102937231 / 549755813888)) (Num (6762876120124621 / 4398046511104)) =
     Num (7039535235905617 / 1099511627776)"
  "add64 (Num (6762876120124621 / 4398046511104)) (Num (7034983257766625 / 2199023255552)) =
     Num (1302052664728617 / 274877906944)"
  "add64 (Num (1302052664728617 / 274877906944)) (Num (915662288495575 / 549755813888)) =
     Num (3519767617952809 / 549755813888)"
  unfolding add64.simps round64_def Let_def rne_def pow2_def
  by (simp_all add: norm_down.simps norm_up.simps floor_rat_numeral)

lemma from_zero64:
  "add64 (Num 0) (Num (790592840836055 / 2199023255552)) = Num (790592840836055 / 2199023255552)"
  "add64 (Num 0) (Num (7034983257766625 / 2199023255552)) = Num (7034983257766625 / 2199023255552)"
  by (simp_all add: amounts64)

lemma payments_total64: "totalRevenue64 payments = Num (2674408102937231 / 549755813888)"
  by (simp add: totalRevenue64_def sum_amounts64_def payments_def pay1_def pay2_def pay3_def
      pay4_def from_zero64 additions64 del: add64.simps)

lemma payments_lost64: "lostRevenue64 payments = Num (6762876120124621 / 4398046511104)"
  by (simp add: lostRevenue64_def sum_amounts64_def payments_def pay1_def pay2_def pay3_def
      pay4_def from_zero64 additions64 del: add64.simps)

lemma payments_revenue64:
  "add64 (totalRevenue64 payments) (lostRevenue64 payments) =
     Num (7039535235905617 / 1099511627776)"
  by (simp only: payments_total64 payments_lost64 additions64)

lemma payments_in_order64: "sum_amounts64 payments = Num (3519767617952809 / 549755813888)"
  by (simp add: sum_amounts64_def payments_def pay1_def pay2_def pay3_def
      pay4_def from_zero64 additions64 del: add64.simps)

lemma payments_exact: "sum_list (map amount payments) = 28158140943622471 / 4398046511104"
  by (simp add: payments_def pay1_def pay2_def pay3_def pay4_def)

lemma payments_binary64:
  "is_binary64 (amount pay1)" "is_binary64 (amount pay2)"
  "is_binary64 (amount pay3)" "is_binary64 (amount pay4)"
  by (simp_all add: is_binary64_def pay1_def pay2_def pay3_def pay4_def amounts64)

text \<open>
  C7, as amended. When the amounts are binary64 values and the sum of \<open>totalRevenue\<close> and
  \<open>lostRevenue\<close> that the program computes is finite, that sum is the exact sum of all
  amounts to within the rounding of one binary64 addition per transaction and one more: a
  relative error of at most \<open>(1 + 2 ^ - 53) ^ (n + 1) - 1\<close> of the sum of the magnitudes,
  for \<open>n\<close> transactions. Each amount is in exactly one of the two sums, by its status: the
  amounts of the approved and of the declined transactions together are the amounts of all
  transactions, and the two groups together have as many elements as the input.
\<close>

theorem revenue_partition_rounded:
  assumes "\<forall>t \<in> set T. is_binary64 (amount t)"
    and "add64 (totalRevenue64 T) (lostRevenue64 T) = Num r"
  shows "\<bar>r - sum_list (map amount T)\<bar> \<le>
           rounding_bound (length T + 1) * sum_list (map (\<lambda>t. \<bar>amount t\<bar>) T) \<and>
         sum_list (map amount (filter (\<lambda>t. status t = Approved) T)) +
         sum_list (map amount (filter (\<lambda>t. status t = Declined) T)) =
           sum_list (map amount T) \<and>
         length (filter (\<lambda>t. status t = Approved) T) +
         length (filter (\<lambda>t. status t = Declined) T) = length T"
proof -
  have "length (filter (\<lambda>t. status t = Approved) T) +
        length (filter (\<lambda>t. status t = Declined) T) = length T"
  proof (induction T)
    case Nil
    show ?case by simp
  next
    case (Cons t T)
    then show ?case by (cases "status t") simp_all
  qed
  with revenue64_bound [OF assms] by_status [of amount T] show ?thesis
    by simp
qed

theorem revenue_partition_rounded_witness:
  "is_binary64 (amount pay1) \<and> is_binary64 (amount pay2) \<and>
   is_binary64 (amount pay3) \<and> is_binary64 (amount pay4) \<and>
   add64 (totalRevenue64 payments) (lostRevenue64 payments) =
     Num (7039535235905617 / 1099511627776) \<and>
   \<bar>7039535235905617 / 1099511627776 - sum_list (map amount payments)\<bar> \<le>
     rounding_bound (length payments + 1) * sum_list (map (\<lambda>t. \<bar>amount t\<bar>) payments)"
proof -
  have b: "\<forall>t \<in> set payments. is_binary64 (amount t)"
    by (simp add: payments_def payments_binary64)
  note th = revenue_partition_rounded [OF b payments_revenue64]
  from th payments_binary64 payments_revenue64 show ?thesis
    by blast
qed

text \<open>
  The claim as first stated, an exact equality, fails on \<open>payments\<close>: the program's
  \<open>totalRevenue + lostRevenue\<close> is 6402.419999999999 (the binary64 value just below
  6402.42), which is neither the exact sum of the four amounts nor the sum the program
  gets by adding them in list order, 6402.42.
\<close>

theorem revenue_partition_counterexample:
  "round64 (35952 / 100) = Num (amount pay1) \<and>
   round64 (117818 / 100) = Num (amount pay2) \<and>
   round64 (319914 / 100) = Num (amount pay3) \<and>
   round64 (166558 / 100) = Num (amount pay4) \<and>
   add64 (totalRevenue64 payments) (lostRevenue64 payments) =
     Num (7039535235905617 / 1099511627776) \<and>
   sum_list (map amount payments) = 28158140943622471 / 4398046511104 \<and>
   sum_amounts64 payments = Num (3519767617952809 / 549755813888) \<and>
   add64 (totalRevenue64 payments) (lostRevenue64 payments) \<noteq>
     Num (sum_list (map amount payments)) \<and>
   add64 (totalRevenue64 payments) (lostRevenue64 payments) \<noteq> sum_amounts64 payments"
proof -
  have lit: "round64 (35952 / 100) = Num (amount pay1)"
    "round64 (117818 / 100) = Num (amount pay2)"
    "round64 (319914 / 100) = Num (amount pay3)"
    "round64 (166558 / 100) = Num (amount pay4)"
    using literals64 by (simp_all add: pay1_def pay2_def pay3_def pay4_def)
  have ne: "add64 (totalRevenue64 payments) (lostRevenue64 payments) \<noteq>
              Num (sum_list (map amount payments))"
    "add64 (totalRevenue64 payments) (lostRevenue64 payments) \<noteq> sum_amounts64 payments"
    by (simp_all add: payments_revenue64 payments_exact payments_in_order64)
  from lit ne payments_revenue64 payments_exact payments_in_order64 show ?thesis
    by blast
qed

section \<open>The store keeps its filtered view consistent\<close>

lemma setters_consistent:
  "consistent (setDateRange r s)"
  "consistent (setCountries cs s)"
  "consistent (setPaymentMethods ms s)"
  "consistent (setProcessors ps s)"
  "consistent (setDeclineCodes ds s)"
  "consistent (setDeclineTypes ts s)"
  by (simp_all add: consistent_def setDateRange_def setCountries_def setPaymentMethods_def
      setProcessors_def setDeclineCodes_def setDeclineTypes_def Let_def)

lemma toggles_consistent:
  "consistent (toggleCountry c s)"
  "consistent (togglePaymentMethod m s)"
  "consistent (toggleProcessor p s)"
  "consistent (toggleDeclineCode d s)"
  "consistent (toggleDeclineType ty s)"
  by (simp_all add: toggleCountry_def togglePaymentMethod_def toggleProcessor_def
      toggleDeclineCode_def toggleDeclineType_def setters_consistent)

lemma resetFilters_consistent: "consistent (resetFilters s)"
  by (simp add: consistent_def resetFilters_def filter_initialFilters)

lemma initial_state_consistent: "consistent (initial_state T)"
  by (simp add: consistent_def initial_state_def filter_initialFilters)

lemma call_consistent: "consistent (call a s)"
  by (cases a) (simp_all add: setters_consistent toggles_consistent resetFilters_consistent)

lemma call_allTransactions: "allTransactions (call a s) = allTransactions s"
  by (cases a)
     (simp_all add: setDateRange_def setCountries_def setPaymentMethods_def
      setProcessors_def setDeclineCodes_def setDeclineTypes_def Let_def
      toggleCountry_def togglePaymentMethod_def toggleProcessor_def
      toggleDeclineCode_def toggleDeclineType_def resetFilters_def)

lemma run_snoc: "run (actions @ [a]) s = call a (run actions s)"
  by (simp add: run_def)

lemma run_consistent: "consistent s \<Longrightarrow> consistent (run actions s)"
  by (induction actions rule: rev_induct) (simp_all add: run_def call_consistent)

lemma run_allTransactions: "allTransactions (run actions s) = allTransactions s"
  by (induction actions rule: rev_induct) (simp_all add: run_def call_allTransactions)

lemma reachable_consistent: "reachable T s \<Longrightarrow> consistent s"
  by (auto simp: reachable_def intro: run_consistent initial_state_consistent)

text \<open>
  C1. From the initial state of the store, after any finite sequence of calls of the six
  setters, the five toggles and \<open>resetFilters\<close>, the stored \<open>filteredTransactions\<close> is
  the list \<open>filterTransactions\<close> computes from \<open>allTransactions\<close> and the stored filters,
  and \<open>allTransactions\<close> is still the list the store was created with.
\<close>

theorem store_filtered_view_consistent:
  "filteredTransactions (run actions (initial_state T)) =
     filterTransactions (allTransactions (run actions (initial_state T)))
       (as_partial (filters (run actions (initial_state T)))) \<and>
   allTransactions (run actions (initial_state T)) = T"
proof -
  have "consistent (run actions (initial_state T))"
    by (rule run_consistent) (rule initial_state_consistent)
  moreover have "allTransactions (initial_state T) = T"
    by (simp add: initial_state_def)
  ultimately show ?thesis
    by (simp add: consistent_def run_allTransactions)
qed

theorem store_filtered_view_consistent_witness:
  "filteredTransactions
     (run [SetCountries [Brazil], ToggleDeclineType Soft, ResetFilters, ToggleCountry Mexico]
        (initial_state [tx1, tx2, tx3])) = [tx1]"
proof -
  let ?s = "run [SetCountries [Brazil], ToggleDeclineType Soft, ResetFilters, ToggleCountry Mexico]
              (initial_state [tx1, tx2, tx3])"
  have f: "filters ?s = initialFilters\<lparr>countries := [Mexico]\<rparr>"
    by (simp add: run_def initial_state_def initialFilters_def toggleCountry_def
        setCountries_def toggleDeclineType_def setDeclineTypes_def resetFilters_def
        toggled_def Let_def)
  have k: "keeps (as_partial (initialFilters\<lparr>countries := [Mexico]\<rparr>)) tx1"
       "\<not> keeps (as_partial (initialFilters\<lparr>countries := [Mexico]\<rparr>)) tx2"
       "\<not> keeps (as_partial (initialFilters\<lparr>countries := [Mexico]\<rparr>)) tx3"
    by (simp_all add: keeps_iff_checks passes_all_checks_def as_partial_def initialFilters_def
        check_date_def check_country_def check_paymentMethod_def check_processor_def
        check_declineCode_def check_declineType_def tx1_def tx2_def tx3_def)
  from store_filtered_view_consistent
         [of "[SetCountries [Brazil], ToggleDeclineType Soft, ResetFilters, ToggleCountry Mexico]"
             "[tx1, tx2, tx3]"]
  show ?thesis
    by (simp add: f k filterTransactions_def)
qed

lemma toggled_twice_set: "set (toggled c (toggled c cs)) = set cs"
  by (auto simp: toggled_def)

lemma toggled_twice_absent: "c \<notin> set cs \<Longrightarrow> toggled c (toggled c cs) = cs"
  by (auto simp: toggled_def filter_id_conv)

lemma keeps_countries_set:
  "set cs = set cs' \<Longrightarrow>
   keeps (as_partial (f\<lparr>countries := cs\<rparr>)) t = keeps (as_partial (f\<lparr>countries := cs'\<rparr>)) t"
proof -
  assume e: "set cs = set cs'"
  then have "(cs = []) = (cs' = [])"
    by (metis set_empty)
  with e show ?thesis
    by (simp add: keeps_iff_checks passes_all_checks_def as_partial_def check_date_def
        check_country_def check_paymentMethod_def check_processor_def check_declineCode_def
        check_declineType_def)
qed

lemma filter_countries_set:
  "set cs = set cs' \<Longrightarrow>
   filterTransactions T (as_partial (f\<lparr>countries := cs\<rparr>)) =
   filterTransactions T (as_partial (f\<lparr>countries := cs'\<rparr>))"
  by (simp add: filterTransactions_def keeps_countries_set [of cs cs'] cong: filter_cong)

lemma toggleCountry_twice:
  "toggleCountry c (toggleCountry c s) =
   s\<lparr> filters := (filters s)\<lparr>countries := toggled c (toggled c (countries (filters s)))\<rparr>,
      filteredTransactions :=
        filterTransactions (allTransactions s)
          (as_partial ((filters s)\<lparr>countries := toggled c (toggled c (countries (filters s)))\<rparr>)) \<rparr>"
  by (simp add: toggleCountry_def setCountries_def Let_def)

text \<open>
  C9, as amended. In a reachable state, two calls of \<open>toggleCountry c\<close> in a row restore
  \<open>filteredTransactions\<close>, leave every filter other than \<open>countries\<close> as it was and
  leave the same countries selected; when \<open>c\<close> was not selected before the first call the
  whole state, the list \<open>countries\<close> included, is restored. When \<open>c\<close> was selected the
  list may come back in another order, as the counterexample below shows.
\<close>

theorem toggleCountry_roundtrip:
  assumes "reachable T s"
  shows "filteredTransactions (toggleCountry c (toggleCountry c s)) = filteredTransactions s \<and>
         set (countries (filters (toggleCountry c (toggleCountry c s)))) =
           set (countries (filters s)) \<and>
         (filters (toggleCountry c (toggleCountry c s)))\<lparr>countries := countries (filters s)\<rparr> =
           filters s \<and>
         (c \<notin> set (countries (filters s)) \<longrightarrow> toggleCountry c (toggleCountry c s) = s)"
proof -
  let ?cs = "countries (filters s)"
  let ?cs' = "toggled c (toggled c ?cs)"
  have cons: "filteredTransactions s = filterTransactions (allTransactions s) (as_partial (filters s))"
    using reachable_consistent [OF assms] by (simp add: consistent_def)
  have same: "set ?cs' = set ?cs"
    by (rule toggled_twice_set)
  have "filterTransactions (allTransactions s) (as_partial ((filters s)\<lparr>countries := ?cs'\<rparr>)) =
        filterTransactions (allTransactions s) (as_partial ((filters s)\<lparr>countries := ?cs\<rparr>))"
    by (rule filter_countries_set [OF same])
  then have view: "filteredTransactions (toggleCountry c (toggleCountry c s)) = filteredTransactions s"
    by (simp add: toggleCountry_twice cons)
  have members: "set (countries (filters (toggleCountry c (toggleCountry c s)))) = set ?cs"
    by (simp add: toggleCountry_twice same)
  have others: "(filters (toggleCountry c (toggleCountry c s)))\<lparr>countries := ?cs\<rparr> = filters s"
    by (simp add: toggleCountry_twice)
  have exact: "c \<notin> set ?cs \<longrightarrow> toggleCountry c (toggleCountry c s) = s"
  proof
    assume "c \<notin> set ?cs"
    then have "?cs' = ?cs" by (rule toggled_twice_absent)
    then show "toggleCountry c (toggleCountry c s) = s"
      by (simp add: toggleCountry_twice cons [symmetric])
  qed
  from view members others exact show ?thesis by blast
qed

text \<open>
  The claim as first stated, that the stored filters themselves come back, fails when the
  country is already selected: \<open>two_selected\<close> is reached from the initial state by
  selecting Mexico and then Brazil, and toggling Mexico twice leaves Brazil before Mexico.
\<close>

lemma two_selected_countries: "countries (filters two_selected) = [Mexico, Brazil]"
  by (simp add: two_selected_def run_def initial_state_def initialFilters_def
      toggleCountry_def setCountries_def toggled_def Let_def)

theorem toggleCountry_roundtrip_counterexample:
  "filters (toggleCountry Mexico (toggleCountry Mexico two_selected)) \<noteq> filters two_selected \<and>
   countries (filters two_selected) = [Mexico, Brazil] \<and>
   countries (filters (toggleCountry Mexico (toggleCountry Mexico two_selected))) = [Brazil, Mexico]"
proof -
  have "countries (filters (toggleCountry Mexico (toggleCountry Mexico two_selected))) = [Brazil, Mexico]"
    by (simp add: toggleCountry_twice two_selected_countries toggled_def)
  then show ?thesis
    using two_selected_countries by auto
qed

theorem toggleCountry_roundtrip_witness:
  "reachable [tx1, tx2] two_selected \<and>
   Colombia \<notin> set (countries (filters two_selected)) \<and>
   toggleCountry Colombia (toggleCountry Colombia two_selected) = two_selected \<and>
   filteredTransactions (toggleCountry Mexico (toggleCountry Mexico two_selected)) =
     filteredTransactions two_selected"
proof -
  have r: "reachable [tx1, tx2] two_selected"
    unfolding reachable_def two_selected_def by blast
  from toggleCountry_roundtrip [OF r, of Colombia] toggleCountry_roundtrip [OF r, of Mexico] r
  show ?thesis
    by (simp add: two_selected_countries)
qed

section \<open>Rates are guarded against an empty total\<close>

lemma rate_of_guarded:
  "rate_of a n = (if n > 0 then Num (of_nat a / of_nat n * 100) else Num 0)"
  by (simp add: rate_of_def num_div_def)

lemma set_insert_by: "set (insert_by cmp x xs) = insert x (set xs)"
  by (induction xs) auto

lemma set_insertion_fold:
  "set (foldl (\<lambda>acc x. insert_by cmp x acc) acc xs) = set acc \<union> set xs"
  by (induction xs arbitrary: acc) (simp_all add: set_insert_by)

lemma set_sort_by: "set (sort_by cmp xs) = set xs"
  by (simp add: sort_by_def set_insertion_fold)

lemma aggregate_rate:
  "dim_authorizationRate (aggregate e) =
     (if dim_total (aggregate e) > 0
      then Num (of_nat (dim_approved (aggregate e)) / of_nat (dim_total (aggregate e)) * 100)
      else Num 0)"
  by (simp add: aggregate_def Let_def rate_of_guarded)

lemma data_point_rate:
  "point_authorizationRate (data_point lib e) =
     (if point_total (data_point lib e) > 0
      then Num (of_nat (point_approved (data_point lib e)) /
                of_nat (point_total (data_point lib e)) * 100)
      else Num 0)"
  by (simp add: data_point_def Let_def rate_of_guarded)

lemma getAuthorizationRate_rate:
  "authorizationRate (getAuthorizationRate T) =
     (if total (getAuthorizationRate T) > 0
      then Num (of_nat (approved (getAuthorizationRate T)) /
                of_nat (total (getAuthorizationRate T)) * 100)
      else Num 0)"
  by (simp add: getAuthorizationRate_def Let_def rate_of_guarded)

lemma getAuthorizationRate_empty:
  "getAuthorizationRate [] =
     \<lparr> total = 0, approved = 0, declined = 0, authorizationRate = Num 0,
       totalRevenue = 0, lostRevenue = 0 \<rparr>"
  by (simp add: getAuthorizationRate_def Let_def rate_of_def sum_amounts_def)

text \<open>
  C6. Every \<open>authorizationRate\<close> that \<open>getAuthorizationRate\<close>, \<open>groupByDimension\<close> and
  \<open>groupByTime\<close> produce is a finite number: approved / total * 100 when the total is
  positive and 0 when the total is 0, never the non-finite result of a division by zero.
  On the empty list \<open>getAuthorizationRate\<close> returns the record of six zeros.
\<close>

theorem authorizationRate_zero_guarded:
  "authorizationRate (getAuthorizationRate T) =
     (if total (getAuthorizationRate T) > 0
      then Num (of_nat (approved (getAuthorizationRate T)) /
                of_nat (total (getAuthorizationRate T)) * 100)
      else Num 0) \<and>
   (\<forall>a \<in> set (groupByDimension T d).
      dim_authorizationRate a =
        (if dim_total a > 0 then Num (of_nat (dim_approved a) / of_nat (dim_total a) * 100)
         else Num 0)) \<and>
   (\<forall>p \<in> set (groupByTime lib T g).
      point_authorizationRate p =
        (if point_total p > 0
         then Num (of_nat (point_approved p) / of_nat (point_total p) * 100)
         else Num 0)) \<and>
   getAuthorizationRate [] =
     \<lparr> total = 0, approved = 0, declined = 0, authorizationRate = Num 0,
       totalRevenue = 0, lostRevenue = 0 \<rparr>"
proof (intro conjI ballI)
  show "authorizationRate (getAuthorizationRate T) =
     (if total (getAuthorizationRate T) > 0
      then Num (of_nat (approved (getAuthorizationRate T)) /
                of_nat (total (getAuthorizationRate T)) * 100)
      else Num 0)"
    by (rule getAuthorizationRate_rate)
next
  fix a assume "a \<in> set (groupByDimension T d)"
  then obtain e where "a = aggregate e"
    by (auto simp: groupByDimension_def set_sort_by)
  then show "dim_authorizationRate a =
        (if dim_total a > 0 then Num (of_nat (dim_approved a) / of_nat (dim_total a) * 100)
         else Num 0)"
    by (simp only: aggregate_rate)
next
  fix p assume "p \<in> set (groupByTime lib T g)"
  then obtain e where "p = data_point lib e"
    by (auto simp: groupByTime_def set_sort_by)
  then show "point_authorizationRate p =
        (if point_total p > 0
         then Num (of_nat (point_approved p) / of_nat (point_total p) * 100)
         else Num 0)"
    by (simp only: data_point_rate)
next
  show "getAuthorizationRate [] =
     \<lparr> total = 0, approved = 0, declined = 0, authorizationRate = Num 0,
       totalRevenue = 0, lostRevenue = 0 \<rparr>"
    by (rule getAuthorizationRate_empty)
qed

lemma groupByDimension_sample:
  "groupByDimension [tx1, tx2] by_country =
     [\<lparr> dimension = ''Mexico'', dim_approved = 1, dim_declined = 0, dim_total = 1,
        dim_authorizationRate = Num 100, totalAmount = 100 \<rparr>,
      \<lparr> dimension = ''Brazil'', dim_approved = 0, dim_declined = 1, dim_total = 1,
        dim_authorizationRate = Num 0, totalAmount = 0 \<rparr>]"
  by (simp add: groupByDimension_def group_by_field_def aggregate_def sort_by_def
      rate_of_def num_div_def sum_amounts_def tx1_def tx2_def Let_def)

lemma groupByTime_sample:
  "groupByTime sample_lib [tx5, tx1, tx2] day =
     [\<lparr> date = ''1970-01-01'', point_timestamp = 0, point_approved = 1,
        point_declined = 1, point_total = 2, point_authorizationRate = Num 50 \<rparr>,
      \<lparr> date = ''1970-01-02'', point_timestamp = 86400000, point_approved = 0,
        point_declined = 1, point_total = 1, point_authorizationRate = Num 0 \<rparr>]"
  by (simp add: groupByTime_def group_by_date_def data_point_def sort_by_def
      rate_of_def num_div_def sample_lib_def tx1_def tx2_def tx5_def Let_def)

theorem authorizationRate_zero_guarded_witness:
  "authorizationRate (getAuthorizationRate [tx1, tx2, tx3, tx4]) = Num 25 \<and>
   authorizationRate (getAuthorizationRate []) = Num 0 \<and>
   map dim_authorizationRate (groupByDimension [tx1, tx2] by_country) = [Num 100, Num 0] \<and>
   map point_authorizationRate (groupByTime sample_lib [tx5, tx1, tx2] day) = [Num 50, Num 0]"
proof -
  have m: "total (getAuthorizationRate [tx1, tx2, tx3, tx4]) = 4"
     "approved (getAuthorizationRate [tx1, tx2, tx3, tx4]) = 1"
    by (simp_all add: getAuthorizationRate_def Let_def tx1_def tx2_def tx3_def tx4_def)
  from authorizationRate_zero_guarded [of "[tx1, tx2, tx3, tx4]" by_country sample_lib day]
  have "authorizationRate (getAuthorizationRate [tx1, tx2, tx3, tx4]) = Num 25"
    by (simp add: m)
  moreover
  from authorizationRate_zero_guarded [of "[tx1, tx2]" by_country sample_lib day]
  have "map dim_authorizationRate (groupByDimension [tx1, tx2] by_country) = [Num 100, Num 0]"
    and "authorizationRate (getAuthorizationRate []) = Num 0"
    by (simp_all add: groupByDimension_sample)
  moreover
  from authorizationRate_zero_guarded [of "[tx5, tx1, tx2]" by_country sample_lib day]
  have "map point_authorizationRate (groupByTime sample_lib [tx5, tx1, tx2] day) = [Num 50, Num 0]"
    by (simp add: groupByTime_sample)
  ultimately show ?thesis by simp
qed

section \<open>Sorting and grouping\<close>

subsection \<open>The sort orders its result and keeps its elements\<close>

lemma insert_by_descending:
  assumes cmp: "\<And>a b. (cmp a b < 0) = (k b < k a)"
  shows "descending_by k xs \<Longrightarrow> descending_by k (insert_by cmp x xs)"
  unfolding descending_by_def
proof (induction xs)
  case Nil
  show ?case by simp
next
  case (Cons y ys)
  show ?case
  proof (cases "cmp x y < 0")
    case True
    then have "k y < k x" by (simp add: cmp)
    with Cons.prems show ?thesis
      using True by (auto intro: order_trans less_imp_le)
  next
    case False
    then have "k x \<le> k y" by (simp add: cmp not_less)
    with Cons show ?thesis
      using False by (auto simp: set_insert_by)
  qed
qed

lemma insertion_fold_descending:
  assumes cmp: "\<And>a b. (cmp a b < 0) = (k b < k a)"
  shows "descending_by k acc \<Longrightarrow>
         descending_by k (foldl (\<lambda>acc x. insert_by cmp x acc) acc xs)"
  by (induction xs arbitrary: acc) (simp_all add: insert_by_descending [OF cmp])

lemma sort_by_descending:
  assumes cmp: "\<And>a b. (cmp a b < 0) = (k b < k a)"
  shows "descending_by k (sort_by cmp xs)"
  unfolding sort_by_def
  by (rule insertion_fold_descending [OF cmp]) (simp add: descending_by_def)

lemma sum_insert_by:
  fixes f :: "'a \<Rightarrow> 'b::comm_monoid_add"
  shows "sum_list (map f (insert_by cmp x xs)) = f x + sum_list (map f xs)"
  by (induction xs) (simp_all add: add.left_commute)

lemma sum_insertion_fold:
  fixes f :: "'a \<Rightarrow> 'b::comm_monoid_add"
  shows "sum_list (map f (foldl (\<lambda>acc x. insert_by cmp x acc) acc xs)) =
         sum_list (map f acc) + sum_list (map f xs)"
  by (induction xs arbitrary: acc) (simp_all add: sum_insert_by ac_simps)

lemma sum_sort_by:
  fixes f :: "'a \<Rightarrow> 'b::comm_monoid_add"
  shows "sum_list (map f (sort_by cmp xs)) = sum_list (map f xs)"
  by (simp add: sort_by_def sum_insertion_fold)

lemma length_insert_by: "length (insert_by cmp x xs) = Suc (length xs)"
  by (induction xs) simp_all

lemma length_insertion_fold:
  "length (foldl (\<lambda>acc x. insert_by cmp x acc) acc xs) = length acc + length xs"
  by (induction xs arbitrary: acc) (simp_all add: length_insert_by)

lemma length_sort_by: "length (sort_by cmp xs) = length xs"
  by (simp add: sort_by_def length_insertion_fold)

subsection \<open>Each group holds the elements of its key, in input order\<close>

lemma map_of_push_group:
  "map_of (push_group k v acc) =
     (map_of acc)(k \<mapsto> (case map_of acc k of None \<Rightarrow> [v] | Some vs \<Rightarrow> vs @ [v]))"
  by (induction acc) (auto simp: fun_eq_iff)

lemma keys_push_group:
  "map fst (push_group k v acc) =
     (if k \<in> set (map fst acc) then map fst acc else map fst acc @ [k])"
  by (induction acc) force+

lemma distinct_push_group:
  "distinct (map fst acc) \<Longrightarrow> distinct (map fst (push_group k v acc))"
  by (simp add: keys_push_group)

lemma sizes_push_group:
  "sum_list (map (\<lambda>e. length (snd e)) (push_group k v acc)) =
     Suc (sum_list (map (\<lambda>e. length (snd e)) acc))"
  by (induction acc) auto

lemma grouping_snoc:
  "grouping key (xs @ [t]) =
     (case key t of None \<Rightarrow> grouping key xs | Some k \<Rightarrow> push_group k t (grouping key xs))"
  by (simp add: grouping_def split: option.splits)

lemma grouping_Nil: "grouping key [] = []"
  by (simp add: grouping_def)

lemma distinct_grouping: "distinct (map fst (grouping key xs))"
  by (induction xs rule: rev_induct)
     (simp_all add: grouping_Nil grouping_snoc distinct_push_group split: option.splits)

lemma sizes_grouping:
  "sum_list (map (\<lambda>e. length (snd e)) (grouping key xs)) =
     length (filter (\<lambda>t. key t \<noteq> None) xs)"
  by (induction xs rule: rev_induct)
     (auto simp: grouping_Nil grouping_snoc sizes_push_group split: option.splits)

lemma map_of_grouping:
  "map_of (grouping key xs) k =
     (if filter (\<lambda>t. key t = Some k) xs = [] then None
      else Some (filter (\<lambda>t. key t = Some k) xs))"
proof (induction xs rule: rev_induct)
  case Nil
  show ?case by (simp add: grouping_Nil)
next
  case (snoc t xs)
  show ?case
  proof (cases "key t")
    case None
    with snoc show ?thesis by (simp add: grouping_snoc)
  next
    case (Some k')
    with snoc show ?thesis
      by (auto simp: grouping_snoc map_of_push_group)
  qed
qed

lemma grouping_entry:
  assumes "(k, vs) \<in> set (grouping key xs)"
  shows "vs = filter (\<lambda>t. key t = Some k) xs \<and> vs \<noteq> []"
proof -
  from assms have "map_of (grouping key xs) k = Some vs"
    by (simp add: distinct_grouping)
  then show ?thesis
    by (simp add: map_of_grouping split: if_splits)
qed

section \<open>Dimension aggregates\<close>

lemma names_nonempty:
  "country_name c \<noteq> []"
  "payment_method_name m \<noteq> []"
  "processor_name p \<noteq> []"
  "decline_code_name dc \<noteq> []"
  by (cases c, simp_all) (cases m, simp_all, cases p, simp_all, cases dc, simp_all)

lemma field_value_nonempty: "field_value d t \<noteq> Some []"
  by (cases d) (auto simp: names_nonempty)

lemma group_by_field_grouping: "group_by_field d T = grouping (field_value d) T"
proof -
  have "(\<lambda>acc t. case field_value d t of None \<Rightarrow> acc
                 | Some v \<Rightarrow> if v = [] then acc else push_group v t acc) =
        (\<lambda>acc t. case field_value d t of None \<Rightarrow> acc | Some k \<Rightarrow> push_group k t acc)"
    using field_value_nonempty [of d]
    by (auto simp: fun_eq_iff split: option.splits)
  then show ?thesis
    by (simp add: group_by_field_def grouping_def)
qed

lemma dim_total_aggregate: "dim_total (aggregate e) = length (snd e)"
  by (simp add: aggregate_def Let_def)

lemma groupByDimension_descending:
  "descending_by dim_total (groupByDimension T d)"
  unfolding groupByDimension_def
  by (rule sort_by_descending) auto

lemma groupByDimension_totals:
  "sum_list (map dim_total (groupByDimension T d)) =
     length (filter (\<lambda>t. field_value d t \<noteq> None) T)"
proof -
  have "sum_list (map dim_total (groupByDimension T d)) =
        sum_list (map dim_total (map aggregate (group_by_field d T)))"
    by (simp only: groupByDimension_def sum_sort_by)
  also have "\<dots> = sum_list (map (\<lambda>e. length (snd e)) (grouping (field_value d) T))"
    by (simp add: group_by_field_grouping dim_total_aggregate o_def)
  also have "\<dots> = length (filter (\<lambda>t. field_value d t \<noteq> None) T)"
    by (rule sizes_grouping)
  finally show ?thesis .
qed

lemma groupByDimension_amount:
  assumes "a \<in> set (groupByDimension T d)"
  shows "totalAmount a =
           sum_list (map amount
             (filter (\<lambda>t. field_value d t = Some (dimension a) \<and> status t = Approved) T))"
proof -
  from assms obtain k vs where a: "a = aggregate (k, vs)"
    and e: "(k, vs) \<in> set (grouping (field_value d) T)"
    by (auto simp: groupByDimension_def set_sort_by group_by_field_grouping)
  from e have vs: "vs = filter (\<lambda>t. field_value d t = Some k) T"
    by (simp add: grouping_entry)
  have "totalAmount a = sum_list (map amount (filter (\<lambda>t. status t = Approved) vs))"
    by (simp add: a aggregate_def Let_def sum_amounts_sum_list)
  moreover have "dimension a = k"
    by (simp add: a aggregate_def Let_def)
  ultimately show ?thesis
    by (simp add: vs conj_commute)
qed

text \<open>
  C5. The result of \<open>groupByDimension\<close> is sorted by \<open>total\<close>, largest first; the totals
  of its groups add up to the number of transactions whose field for the dimension is not
  null; and the \<open>totalAmount\<close> of a group is the sum of the amounts of the approved
  transactions that carry the group's value, so declined amounts add nothing to it.
\<close>

theorem groupByDimension_sorted_totals_amounts:
  "sorted_wrt (\<lambda>a b. dim_total a \<ge> dim_total b) (groupByDimension T d) \<and>
   sum_list (map dim_total (groupByDimension T d)) =
     length (filter (\<lambda>t. field_value d t \<noteq> None) T) \<and>
   (\<forall>a \<in> set (groupByDimension T d).
      totalAmount a =
        sum_list (map amount
          (filter (\<lambda>t. field_value d t = Some (dimension a) \<and> status t = Approved) T)))"
  using groupByDimension_descending [of T d] groupByDimension_totals [of T d]
    groupByDimension_amount [of _ T d]
  by (simp add: descending_by_def)

lemma groupByDimension_sample4:
  "groupByDimension [tx2, tx1, tx3, tx4] by_decline_code =
     [\<lparr> dimension = ''insufficient_funds'', dim_approved = 0, dim_declined = 2, dim_total = 2,
        dim_authorizationRate = Num 0, totalAmount = 0 \<rparr>,
      \<lparr> dimension = ''suspected_fraud'', dim_approved = 0, dim_declined = 1, dim_total = 1,
        dim_authorizationRate = Num 0, totalAmount = 0 \<rparr>]"
  by (simp add: groupByDimension_def group_by_field_def aggregate_def sort_by_def
      rate_of_def num_div_def sum_amounts_def tx1_def tx2_def tx3_def tx4_def Let_def)

lemma groupByDimension_sample_country:
  "groupByDimension [tx1, tx2, tx3, tx4] by_country =
     [\<lparr> dimension = ''Brazil'', dim_approved = 0, dim_declined = 2, dim_total = 2,
        dim_authorizationRate = Num 0, totalAmount = 0 \<rparr>,
      \<lparr> dimension = ''Mexico'', dim_approved = 1, dim_declined = 0, dim_total = 1,
        dim_authorizationRate = Num 100, totalAmount = 100 \<rparr>,
      \<lparr> dimension = ''Colombia'', dim_approved = 0, dim_declined = 1, dim_total = 1,
        dim_authorizationRate = Num 0, totalAmount = 0 \<rparr>]"
  by (simp add: groupByDimension_def group_by_field_def aggregate_def sort_by_def
      rate_of_def num_div_def sum_amounts_def tx1_def tx2_def tx3_def tx4_def Let_def)

theorem groupByDimension_sorted_totals_amounts_witness:
  "map dim_total (groupByDimension [tx1, tx2, tx3, tx4] by_country) = [2, 1, 1] \<and>
   map totalAmount (groupByDimension [tx1, tx2, tx3, tx4] by_country) = [0, 100, 0] \<and>
   map dim_total (groupByDimension [tx2, tx1, tx3, tx4] by_decline_code) = [2, 1] \<and>
   length (filter (\<lambda>t. field_value by_decline_code t \<noteq> None) [tx2, tx1, tx3, tx4]) = 3"
  using groupByDimension_sorted_totals_amounts [of "[tx1, tx2, tx3, tx4]" by_country]
    groupByDimension_sorted_totals_amounts [of "[tx2, tx1, tx3, tx4]" by_decline_code]
  by (simp add: groupByDimension_sample_country groupByDimension_sample4)

section \<open>Decline impact and its cumulative percentages\<close>

lemma group_by_code_grouping: "group_by_code xs = grouping decline_code xs"
  by (simp add: group_by_code_def grouping_def)

lemma count_analyse: "count (analyse n e) = length (snd e)"
  by (simp add: analyse_def Let_def)

lemma percentage_analyse:
  "n \<noteq> 0 \<Longrightarrow> percentage (analyse n e) = Num (share n (analyse n e))"
  by (simp add: analyse_def Let_def share_def num_div_def)

lemma length_accumulate: "length (accumulate c items) = length items"
  by (induction items arbitrary: c) (simp_all add: Let_def)

lemma count_accumulate: "map count (accumulate c items) = map count items"
  by (induction items arbitrary: c) (simp_all add: Let_def)

lemma share_nonneg: "0 \<le> share n item"
  by (simp add: share_def)

lemma accumulate_running:
  assumes "\<forall>i \<in> set items. percentage i = Num (share n i)"
  shows "\<exists>cs. map cumulativePercentage (accumulate (Num c) items) = map (\<lambda>q. Some (Num q)) cs \<and>
              sorted (c # cs) \<and> last (c # cs) = c + sum_list (map (share n) items)"
  using assms
proof (induction items arbitrary: c)
  case Nil
  show ?case by simp
next
  case (Cons i rest)
  let ?c' = "c + share n i"
  from Cons.prems have p: "percentage i = Num (share n i)"
    and r: "\<forall>j \<in> set rest. percentage j = Num (share n j)"
    by simp_all
  from Cons.IH [OF r, of ?c'] obtain cs where
    m: "map cumulativePercentage (accumulate (Num ?c') rest) = map (\<lambda>q. Some (Num q)) cs"
    and s: "sorted (?c' # cs)"
    and l: "last (?c' # cs) = ?c' + sum_list (map (share n) rest)"
    by blast
  have le: "c \<le> ?c'"
    using share_nonneg [of n i] by simp
  have "map cumulativePercentage (accumulate (Num c) (i # rest)) =
        map (\<lambda>q. Some (Num q)) (?c' # cs)"
    by (simp add: Let_def p m)
  moreover have "sorted (c # ?c' # cs)"
    using s le by auto
  moreover have "last (c # ?c' # cs) = c + sum_list (map (share n) (i # rest))"
    using l by (simp add: add.assoc)
  ultimately show ?case by blast
qed

lemma sum_shares:
  "sum_list (map (share n) items) = of_nat (sum_list (map count items)) / of_nat n * 100"
  by (induction items) (simp_all add: share_def add_divide_distrib distrib_right)

lemma getDeclineImpact_none:
  "\<not> has_coded_decline T \<Longrightarrow> getDeclineImpact T = []"
  by (auto simp: has_coded_decline_def getDeclineImpact_def Let_def filter_empty_conv)

lemma getDeclineImpact_some:
  assumes "has_coded_decline T"
  shows "getDeclineImpact T \<noteq> [] \<and>
         sorted_wrt (\<lambda>a b. count a \<ge> count b) (getDeclineImpact T) \<and>
         (\<exists>cs. map cumulativePercentage (getDeclineImpact T) = map (\<lambda>q. Some (Num q)) cs \<and>
               sorted cs \<and> last cs = 100)"
proof -
  define D where "D = filter (\<lambda>t. status t = Declined \<and> decline_code t \<noteq> None) T"
  define n where "n = length D"
  define rows where "rows = map (analyse n) (grouping decline_code D)"
  define ranked where "ranked = sort_by (\<lambda>a b. int (count b) - int (count a)) rows"
  from assms have "D \<noteq> []"
    by (auto simp: has_coded_decline_def D_def filter_empty_conv)
  then have n: "n \<noteq> 0" by (simp add: n_def)
  have res: "getDeclineImpact T = accumulate (Num 0) ranked"
  proof -
    have "length (filter (\<lambda>t. status t = Declined \<and> decline_code t \<noteq> None) T) \<noteq> 0"
      using n unfolding n_def D_def .
    then show ?thesis
      unfolding getDeclineImpact_def Let_def group_by_code_grouping ranked_def rows_def
        n_def D_def
      by (simp only: if_False)
  qed
  have "filter (\<lambda>t. decline_code t \<noteq> None) D = D"
    by (simp add: D_def)
  then have sizes: "sum_list (map (\<lambda>e. length (snd e)) (grouping decline_code D)) = n"
    by (simp add: sizes_grouping n_def)
  have counts: "sum_list (map count ranked) = n"
    by (simp add: ranked_def sum_sort_by rows_def o_def count_analyse sizes)
  have "rows \<noteq> []"
    using sizes n by (auto simp: rows_def)
  then have nonempty: "ranked \<noteq> []"
    using length_sort_by [of "\<lambda>a b. int (count b) - int (count a)" rows]
    by (auto simp: ranked_def)
  have pct: "\<forall>i \<in> set ranked. percentage i = Num (share n i)"
    using n by (auto simp: ranked_def set_sort_by rows_def percentage_analyse)
  have desc: "descending_by count ranked"
    unfolding ranked_def by (rule sort_by_descending) auto
  from accumulate_running [OF pct, of 0] obtain cs where
    m: "map cumulativePercentage (accumulate (Num 0) ranked) = map (\<lambda>q. Some (Num q)) cs"
    and s: "sorted (0 # cs)"
    and l: "last (0 # cs) = 0 + sum_list (map (share n) ranked)"
    by blast
  from m have "length cs = length ranked"
    by (metis length_accumulate length_map)
  with nonempty have cs: "cs \<noteq> []" by auto
  have "sum_list (map (share n) ranked) = 100"
    using n by (simp add: sum_shares counts)
  with l cs have last: "last cs = 100" by simp
  from s have sorted: "sorted cs" by simp
  have "getDeclineImpact T \<noteq> []"
    using nonempty length_accumulate [of "Num 0" ranked] by (auto simp: res)
  moreover have "sorted_wrt (\<lambda>a b. count a \<ge> count b) (getDeclineImpact T)"
  proof -
    have "sorted_wrt (\<lambda>x y. x \<ge> y) (map count ranked)"
      using desc by (simp add: descending_by_def sorted_wrt_map)
    then have "sorted_wrt (\<lambda>x y. x \<ge> y) (map count (accumulate (Num 0) ranked))"
      by (simp only: count_accumulate)
    then show ?thesis
      by (simp add: res sorted_wrt_map)
  qed
  ultimately show ?thesis
    using m sorted last by (auto simp: res)
qed

text \<open>
  C4. When the input holds a declined transaction with a decline code, the result of
  \<open>getDeclineImpact\<close> is not empty, is sorted by \<open>count\<close>, largest first, its
  cumulative percentages are finite numbers that never decrease along the list, and the
  last one is 100 (exactly, in rational arithmetic). When the input holds no such
  transaction the result is the empty list.
\<close>

theorem getDeclineImpact_pareto:
  "((\<exists>t \<in> set T. status t = Declined \<and> decline_code t \<noteq> None) \<longrightarrow>
      getDeclineImpact T \<noteq> [] \<and>
      sorted_wrt (\<lambda>a b. count a \<ge> count b) (getDeclineImpact T) \<and>
      (\<exists>cs. map cumulativePercentage (getDeclineImpact T) = map (\<lambda>q. Some (Num q)) cs \<and>
            sorted cs \<and> last cs = 100)) \<and>
   (\<not> (\<exists>t \<in> set T. status t = Declined \<and> decline_code t \<noteq> None) \<longrightarrow>
      getDeclineImpact T = [])"
  using getDeclineImpact_some [of T] getDeclineImpact_none [of T]
  unfolding has_coded_decline_def by blast

lemma getDeclineImpact_sample:
  "getDeclineImpact [tx1, tx3, tx2, tx4] =
     [\<lparr> code = insufficient_funds, decline_type = Soft, count = 2, percentage = Num (200 / 3),
        code_lostRevenue = 80, averageAmount = Num 40,
        cumulativePercentage = Some (Num (200 / 3)) \<rparr>,
      \<lparr> code = suspected_fraud, decline_type = Hard, count = 1, percentage = Num (100 / 3),
        code_lostRevenue = 150, averageAmount = Num 150,
        cumulativePercentage = Some (Num 100) \<rparr>]"
  by (simp add: getDeclineImpact_def group_by_code_def analyse_def sort_by_def
      classifyDecline_def softDeclines_def hardDeclines_def
      num_div_def sum_amounts_def tx1_def tx2_def tx3_def tx4_def Let_def)

theorem getDeclineImpact_pareto_witness:
  "tx3 \<in> set [tx1, tx3, tx2, tx4] \<and> status tx3 = Declined \<and> decline_code tx3 \<noteq> None \<and>
   map count (getDeclineImpact [tx1, tx3, tx2, tx4]) = [2, 1] \<and>
   map cumulativePercentage (getDeclineImpact [tx1, tx3, tx2, tx4]) =
     [Some (Num (200 / 3)), Some (Num 100)] \<and>
   status tx1 \<noteq> Declined \<and> getDeclineImpact [tx1] = []"
proof -
  have a: "\<exists>t \<in> set [tx1, tx3, tx2, tx4]. status t = Declined \<and> decline_code t \<noteq> None"
    by (simp add: tx3_def)
  have b: "\<not> (\<exists>t \<in> set [tx1]. status t = Declined \<and> decline_code t \<noteq> None)"
    by (simp add: tx1_def)
  from getDeclineImpact_pareto [of "[tx1, tx3, tx2, tx4]"] a
  have "getDeclineImpact [tx1, tx3, tx2, tx4] \<noteq> []" by blast
  moreover from getDeclineImpact_pareto [of "[tx1]"] b
  have "getDeclineImpact [tx1] = []" by blast
  ultimately show ?thesis
    by (simp add: getDeclineImpact_sample) (simp add: tx1_def tx3_def)
qed

end
